theory Spec2Isabelle
  imports Complex_Main
begin

section \<open>libeval: the expression compiler and its virtual machine\<close>

text \<open>
  This theory embeds the expression compiler of \<^verbatim>\<open>libeval_compiler.cpp\<close>: the unit
  matching of the tokenizer, the code generator \<^verbatim>\<open>COMPILER::generateUCode\<close>, the virtual
  machine \<^verbatim>\<open>UOP::Exec\<close> / \<^verbatim>\<open>UCODE::Run\<close>, and the error slots of the compiler and of the
  runtime context.

  The header \<^verbatim>\<open>libeval_compiler.h\<close> and the generated grammar are not among the sources.
  What the code takes from them is either a parameter of the model (the record \<open>env\<close>
  below) or a definition marked \<^emph>\<open>Modelled from the spec\<close>.
\<close>

subsection \<open>Opcodes\<close>

text \<open>
  The \<^verbatim>\<open>TR_*\<close> codes that the source names. Node kinds and instruction codes live in
  one \<^verbatim>\<open>int\<close> in the source (the generator's default branch copies a node's \<^verbatim>\<open>op\<close> into
  the instruction), so they are one type here.
\<close>

datatype opcode =
    TR_NUMBER | TR_IDENTIFIER | TR_STRUCT_REF | TR_STRING | TR_UNIT
  | TR_OP_FUNC_CALL | TR_OP_METHOD_CALL
  | TR_UOP_PUSH_VAR | TR_UOP_PUSH_VALUE
  | TR_OP_MUL | TR_OP_DIV | TR_OP_ADD | TR_OP_SUB
  | TR_OP_LESS | TR_OP_GREATER | TR_OP_LESS_EQUAL | TR_OP_GREATER_EQUAL
  | TR_OP_EQUAL | TR_OP_NOT_EQUAL | TR_OP_BOOL_AND | TR_OP_BOOL_OR
  | TR_OP_BOOL_NOT

text \<open>
  Modelled from the spec: the numeric values of the \<^verbatim>\<open>TR_*\<close> constants and of the two
  masks are in the missing header. \<open>TR_OP_BINARY_MASK op\<close> stands for
  \<^verbatim>\<open>op & TR_OP_BINARY_MASK\<close> being non-zero, and holds of the twelve operators that the
  spec calls binary (arithmetic, relational, equality, logical and/or);
  \<open>TR_OP_UNARY_MASK op\<close> stands for \<^verbatim>\<open>op & TR_OP_UNARY_MASK\<close> and holds of boolean not.
\<close>

definition TR_OP_BINARY_MASK :: "opcode \<Rightarrow> bool" where
  "TR_OP_BINARY_MASK c =
     (c \<in> {TR_OP_MUL, TR_OP_DIV, TR_OP_ADD, TR_OP_SUB, TR_OP_LESS, TR_OP_GREATER,
           TR_OP_LESS_EQUAL, TR_OP_GREATER_EQUAL, TR_OP_EQUAL, TR_OP_NOT_EQUAL,
           TR_OP_BOOL_AND, TR_OP_BOOL_OR})"

definition TR_OP_UNARY_MASK :: "opcode \<Rightarrow> bool" where
  "TR_OP_UNARY_MASK c = (c = TR_OP_BOOL_NOT)"

subsection \<open>Values, error status, runtime context\<close>

datatype COMPILATION_STAGE = CST_PARSE | CST_CODEGEN | CST_RUNTIME

datatype VAR_TYPE_T = VT_STRING | VT_NUMERIC | VT_UNDEFINED | VT_PARSE_ERROR

record ERROR_STATUS =
  pendingError :: bool
  stage :: COMPILATION_STAGE
  message :: string
  errPos :: int

text \<open>
  Modelled from the spec: class \<^verbatim>\<open>VALUE\<close> is declared in the missing header. The spec
  gives it as a tagged union of a numeric (double) and a text. The type \<open>'d\<close> is the
  machine's \<^verbatim>\<open>double\<close>; its arithmetic is a parameter (record \<open>dbl_ops\<close>), so that nothing is
  assumed of rounding, infinities or NaN.
\<close>

datatype 'd VALUE = Numeric 'd | Text string

record 'd dbl_ops =
  d_zero :: 'd
  d_one :: 'd
  d_add :: "'d \<Rightarrow> 'd \<Rightarrow> 'd"
  d_sub :: "'d \<Rightarrow> 'd \<Rightarrow> 'd"
  d_mul :: "'d \<Rightarrow> 'd \<Rightarrow> 'd"
  d_div :: "'d \<Rightarrow> 'd \<Rightarrow> 'd"
  d_le :: "'d \<Rightarrow> 'd \<Rightarrow> bool"
  d_ge :: "'d \<Rightarrow> 'd \<Rightarrow> bool"
  d_lt :: "'d \<Rightarrow> 'd \<Rightarrow> bool"
  d_gt :: "'d \<Rightarrow> 'd \<Rightarrow> bool"
  d_eq :: "'d \<Rightarrow> 'd \<Rightarrow> bool"
  wxAtof :: "string \<Rightarrow> 'd"
  textAsDouble :: "string \<Rightarrow> 'd"

text \<open>
  Modelled from the spec: \<^verbatim>\<open>VALUE::AsDouble\<close> and \<^verbatim>\<open>VALUE::EqualTo\<close> (missing header).
  Coercion to numeric gives the number of a numeric value; what a text coerces to is the
  parameter \<open>textAsDouble\<close> (the spec fixes it only for non-numeric text, as 0.0).
  Equality is by value on numerics and by content on texts; a numeric and a text are
  not equal.
\<close>

fun AsDouble :: "'d dbl_ops \<Rightarrow> 'd VALUE \<Rightarrow> 'd" where
  "AsDouble D (Numeric x) = x"
| "AsDouble D (Text s) = textAsDouble D s"

fun EqualTo :: "'d dbl_ops \<Rightarrow> 'd VALUE \<Rightarrow> 'd VALUE \<Rightarrow> bool" where
  "EqualTo D (Numeric x) (Numeric y) = d_eq D x y"
| "EqualTo D (Text s) (Text t) = (s = t)"
| "EqualTo D _ _ = False"

text \<open>
  What the machine cannot continue from: a dereferenced null pointer, a pop from an
  empty operand stack, a failed \<^verbatim>\<open>assert\<close> (the asserts are taken as checked), and a C++
  exception leaving a host function.
\<close>

datatype fault = NullDeref | StackUnderflow | AssertFailed | HostException

text \<open>
  Modelled from the spec: class \<^verbatim>\<open>CONTEXT\<close> (missing header) holds the operand stack and
  an error slot. The stack holds \<^verbatim>\<open>VALUE*\<close>: \<open>None\<close> is the null pointer, the head of the
  list is the top. \<^verbatim>\<open>AllocValue\<close> followed by \<^verbatim>\<open>Set\<close> is the construction of a value.
\<close>

record 'd CONTEXT =
  m_stack :: "'d VALUE option list"
  m_ctxError :: ERROR_STATUS

definition Push :: "'d VALUE option \<Rightarrow> 'd CONTEXT \<Rightarrow> 'd CONTEXT" where
  "Push v ctx = ctx\<lparr>m_stack := v # m_stack ctx\<rparr>"

definition Pop :: "'d CONTEXT \<Rightarrow> fault + ('d VALUE option \<times> 'd CONTEXT)" where
  "Pop ctx =
     (case m_stack ctx of
        [] \<Rightarrow> Inl StackUnderflow
      | v # vs \<Rightarrow> Inr (v, ctx\<lparr>m_stack := vs\<rparr>))"

definition SP :: "'d CONTEXT \<Rightarrow> int" where
  "SP ctx = int (length (m_stack ctx))"

definition IsErrorPending :: "'d CONTEXT \<Rightarrow> bool" where
  "IsErrorPending ctx = pendingError (m_ctxError ctx)"

text \<open>\<^verbatim>\<open>CONTEXT::ReportError\<close> (the optional callback is the host's and is left out).\<close>

definition ReportError :: "string \<Rightarrow> 'd CONTEXT \<Rightarrow> 'd CONTEXT" where
  "ReportError aErrorMsg ctx =
     ctx\<lparr>m_ctxError :=
           \<lparr>pendingError = True, stage = CST_RUNTIME, message = aErrorMsg, errPos = -1\<rparr>\<rparr>"

subsection \<open>The host\<close>

text \<open>
  A host function either returns or throws; both leave a context behind.
\<close>

datatype 'c call_result = Returned 'c | Threw 'c

text \<open>
  The environment of the compiler: the double arithmetic, the host's variable references
  (\<^verbatim>\<open>VAR_REF::GetType\<close>, \<^verbatim>\<open>VAR_REF::GetValue\<close>) and function references
  (\<^verbatim>\<open>FUNC_CALL_REF\<close>, a \<^verbatim>\<open>std::function\<close>), the two resolver methods of \<^verbatim>\<open>UCODE\<close>, and the
  unit resolver. \<open>'v\<close> is the type of variable references, \<open>'f\<close> of function references.
\<close>

record ('d, 'v, 'f) env =
  dbl :: "'d dbl_ops"
  GetType :: "'v \<Rightarrow> VAR_TYPE_T"
  GetValue :: "'v \<Rightarrow> 'd CONTEXT \<Rightarrow> 'd VALUE"
  callFunc :: "'f \<Rightarrow> 'd CONTEXT \<Rightarrow> 'v option \<Rightarrow> 'd CONTEXT call_result"
  CreateVarRef :: "string \<Rightarrow> string \<Rightarrow> 'v option"
  CreateFuncCall :: "string \<Rightarrow> 'f option"
  GetSupportedUnits :: "string list"
  Convert :: "string \<Rightarrow> int \<Rightarrow> 'd"

subsection \<open>Instructions and the virtual machine\<close>

record ('d, 'v, 'f) UOP =
  m_op :: opcode
  m_value :: "'d VALUE option"
  m_ref :: "'v option"
  m_func :: "'f option"

text \<open>\<^verbatim>\<open>arg ? arg->AsDouble() : 0.0\<close>\<close>

definition argValue :: "'d dbl_ops \<Rightarrow> 'd VALUE option \<Rightarrow> 'd" where
  "argValue D arg = (case arg of Some v \<Rightarrow> AsDouble D v | None \<Rightarrow> d_zero D)"

text \<open>\<^verbatim>\<open>c ? 1 : 0\<close> assigned to a double\<close>

definition cond01 :: "'d dbl_ops \<Rightarrow> bool \<Rightarrow> 'd" where
  "cond01 D c = (if c then d_one D else d_zero D)"

text \<open>\<^verbatim>\<open>arg1 && arg2 && arg1->EqualTo( arg2 )\<close>\<close>

definition ptrEqualTo :: "'d dbl_ops \<Rightarrow> 'd VALUE option \<Rightarrow> 'd VALUE option \<Rightarrow> bool" where
  "ptrEqualTo D arg1 arg2 =
     (case arg1 of None \<Rightarrow> False
      | Some a \<Rightarrow> (case arg2 of None \<Rightarrow> False | Some b \<Rightarrow> EqualTo D a b))"

text \<open>The inner \<^verbatim>\<open>switch\<close> of the binary branch of \<^verbatim>\<open>UOP::Exec\<close>.\<close>

definition binaryResult ::
  "'d dbl_ops \<Rightarrow> opcode \<Rightarrow> 'd VALUE option \<Rightarrow> 'd VALUE option \<Rightarrow> 'd" where
  "binaryResult D c arg1 arg2 =
     (let arg2Value = argValue D arg2; arg1Value = argValue D arg1 in
      case c of
        TR_OP_ADD \<Rightarrow> d_add D arg1Value arg2Value
      | TR_OP_SUB \<Rightarrow> d_sub D arg1Value arg2Value
      | TR_OP_MUL \<Rightarrow> d_mul D arg1Value arg2Value
      | TR_OP_DIV \<Rightarrow> d_div D arg1Value arg2Value
      | TR_OP_LESS_EQUAL \<Rightarrow> cond01 D (d_le D arg1Value arg2Value)
      | TR_OP_GREATER_EQUAL \<Rightarrow> cond01 D (d_ge D arg1Value arg2Value)
      | TR_OP_LESS \<Rightarrow> cond01 D (d_lt D arg1Value arg2Value)
      | TR_OP_GREATER \<Rightarrow> cond01 D (d_gt D arg1Value arg2Value)
      | TR_OP_EQUAL \<Rightarrow> cond01 D (ptrEqualTo D arg1 arg2)
      | TR_OP_NOT_EQUAL \<Rightarrow> cond01 D (\<not> ptrEqualTo D arg1 arg2)
      | TR_OP_BOOL_AND \<Rightarrow>
          cond01 D (\<not> d_eq D arg1Value (d_zero D) \<and> \<not> d_eq D arg2Value (d_zero D))
      | TR_OP_BOOL_OR \<Rightarrow>
          cond01 D (\<not> d_eq D arg1Value (d_zero D) \<or> \<not> d_eq D arg2Value (d_zero D))
      | _ \<Rightarrow> d_zero D)"

text \<open>
  The part of \<^verbatim>\<open>UOP::Exec\<close> after the first \<^verbatim>\<open>switch\<close>: the binary branch pops
  \<^verbatim>\<open>arg2\<close> first and \<^verbatim>\<open>arg1\<close> second; the unary branch is empty in the source.
\<close>

definition ExecOperator ::
  "'d dbl_ops \<Rightarrow> opcode \<Rightarrow> 'd CONTEXT \<Rightarrow> fault + 'd CONTEXT" where
  "ExecOperator D c ctx =
     (if TR_OP_BINARY_MASK c then
        (case Pop ctx of
           Inl e \<Rightarrow> Inl e
         | Inr (arg2, ctx1) \<Rightarrow>
             (case Pop ctx1 of
                Inl e \<Rightarrow> Inl e
              | Inr (arg1, ctx2) \<Rightarrow>
                  Inr (Push (Some (Numeric (binaryResult D c arg1 arg2))) ctx2)))
      else if TR_OP_UNARY_MASK c then Inr ctx
      else Inr ctx)"

text \<open>
  \<^verbatim>\<open>UOP::Exec\<close>. \<^verbatim>\<open>TR_UOP_PUSH_VAR\<close> leaves the first \<^verbatim>\<open>switch\<close> by \<^verbatim>\<open>break\<close> and so reaches
  the mask tests; \<^verbatim>\<open>TR_UOP_PUSH_VALUE\<close> and \<^verbatim>\<open>TR_OP_METHOD_CALL\<close> return. Calling an empty
  \<^verbatim>\<open>std::function\<close> throws.
\<close>

definition Exec ::
  "('d, 'v, 'f) env \<Rightarrow> ('d, 'v, 'f) UOP \<Rightarrow> 'd CONTEXT \<Rightarrow> fault + 'd CONTEXT" where
  "Exec E u ctx =
     (case m_op u of
        TR_UOP_PUSH_VAR \<Rightarrow>
          (case m_ref u of
             None \<Rightarrow> Inl NullDeref
           | Some r \<Rightarrow> ExecOperator (dbl E) (m_op u) (Push (Some (GetValue E r ctx)) ctx))
      | TR_UOP_PUSH_VALUE \<Rightarrow> Inr (Push (m_value u) ctx)
      | TR_OP_METHOD_CALL \<Rightarrow>
          (case m_func u of
             None \<Rightarrow> Inl HostException
           | Some f \<Rightarrow>
               (case callFunc E f ctx (m_ref u) of
                  Returned ctx' \<Rightarrow> Inr ctx'
                | Threw ctx' \<Rightarrow> Inl HostException))
      | _ \<Rightarrow> ExecOperator (dbl E) (m_op u) ctx)"

text \<open>The \<^verbatim>\<open>for\<close> loop of \<^verbatim>\<open>UCODE::Run\<close>.\<close>

fun runOps ::
  "('d, 'v, 'f) env \<Rightarrow> ('d, 'v, 'f) UOP list \<Rightarrow> 'd CONTEXT \<Rightarrow> fault + 'd CONTEXT" where
  "runOps E [] ctx = Inr ctx"
| "runOps E (u # us) ctx =
     (case Exec E u ctx of Inl e \<Rightarrow> Inl e | Inr ctx' \<Rightarrow> runOps E us ctx')"

text \<open>\<^verbatim>\<open>UCODE::Run\<close>: the loop, \<^verbatim>\<open>assert( ctx->SP() == 1 )\<close>, and the final pop.\<close>

definition Run ::
  "('d, 'v, 'f) env \<Rightarrow> ('d, 'v, 'f) UOP list \<Rightarrow> 'd CONTEXT
     \<Rightarrow> fault + ('d VALUE option \<times> 'd CONTEXT)" where
  "Run E m_ucode ctx =
     (case runOps E m_ucode ctx of
        Inl e \<Rightarrow> Inl e
      | Inr ctx' \<Rightarrow> if SP ctx' \<noteq> 1 then Inl AssertFailed else Pop ctx')"

subsection \<open>The tokenizer: looking ahead, unit suffixes\<close>

text \<open>
  Modelled from the spec: class \<^verbatim>\<open>TOKENIZER\<close> is declared in the missing header; it is the
  source string with a cursor, and \<^verbatim>\<open>NextChar\<close> advances the cursor. Characters are
  \<open>char\<close>, and \<^verbatim>\<open>isalnum\<close>, \<^verbatim>\<open>isalpha\<close>, \<^verbatim>\<open>isdigit\<close> classify ASCII as in the C locale.
\<close>

record TOKENIZER =
  m_str :: string
  m_pos :: nat

definition NextChar :: "nat \<Rightarrow> TOKENIZER \<Rightarrow> TOKENIZER" where
  "NextChar aAdvance tk = tk\<lparr>m_pos := m_pos tk + aAdvance\<rparr>"

definition isdigit :: "char \<Rightarrow> bool" where
  "isdigit c = (48 \<le> (of_char c :: nat) \<and> (of_char c :: nat) \<le> 57)"

definition isalpha :: "char \<Rightarrow> bool" where
  "isalpha c =
     ((65 \<le> (of_char c :: nat) \<and> (of_char c :: nat) \<le> 90)
      \<or> (97 \<le> (of_char c :: nat) \<and> (of_char c :: nat) \<le> 122))"

definition isalnum :: "char \<Rightarrow> bool" where
  "isalnum c = (isalpha c \<or> isdigit c)"

text \<open>\<^verbatim>\<open>TOKENIZER::MatchAhead\<close>\<close>

definition MatchAhead :: "string \<Rightarrow> (char \<Rightarrow> bool) \<Rightarrow> TOKENIZER \<Rightarrow> bool" where
  "MatchAhead match stopCond tk =
     (let remaining = int (length (m_str tk)) - int (m_pos tk) in
      if remaining < int (length match) then False
      else if take (length match) (drop (m_pos tk) (m_str tk)) = match then
        (remaining = int (length match) \<or> stopCond (m_str tk ! (m_pos tk + length match)))
      else False)"

text \<open>
  \<^verbatim>\<open>COMPILER::resolveUnits\<close>: the loop over the supported units, in their order, with the
  running \<^verbatim>\<open>unitId\<close>; the result is the unit's index, or -1, and the tokenizer.
\<close>

fun resolveUnitsFrom :: "string list \<Rightarrow> int \<Rightarrow> TOKENIZER \<Rightarrow> int \<times> TOKENIZER" where
  "resolveUnitsFrom [] unitId tk = (-1, tk)"
| "resolveUnitsFrom (unitName # units) unitId tk =
     (if MatchAhead unitName (\<lambda>c. \<not> isalnum c) tk
      then (unitId, NextChar (length unitName) tk)
      else resolveUnitsFrom units (unitId + 1) tk)"

definition resolveUnits :: "('d, 'v, 'f) env \<Rightarrow> TOKENIZER \<Rightarrow> int \<times> TOKENIZER" where
  "resolveUnits E tk = resolveUnitsFrom (GetSupportedUnits E) 0 tk"

subsection \<open>The syntax tree\<close>

text \<open>
  \<^verbatim>\<open>TREE_NODE\<close>, with the fields that \<^verbatim>\<open>newNode\<close> initialises and the generator uses. The
  parser builds every node afresh and links it below one parent, so the two \<^verbatim>\<open>leaf\<close>
  pointers own subtrees; a null pointer is \<open>None\<close>.
\<close>

record ('d, 'v, 'f) node_fields =
  value_str :: "string option"
  value_idx :: int
  op :: opcode
  isTerminal :: bool
  isVisited :: bool
  srcPos :: int
  uop :: "('d, 'v, 'f) UOP option"

datatype ('d, 'v, 'f) TREE_NODE =
  TREE_NODE (flds: "('d, 'v, 'f) node_fields")
            (leaf0: "('d, 'v, 'f) TREE_NODE option")
            (leaf1: "('d, 'v, 'f) TREE_NODE option")

definition setFields ::
  "(('d, 'v, 'f) node_fields \<Rightarrow> ('d, 'v, 'f) node_fields)
     \<Rightarrow> ('d, 'v, 'f) TREE_NODE \<Rightarrow> ('d, 'v, 'f) TREE_NODE" where
  "setFields g node = TREE_NODE (g (flds node)) (leaf0 node) (leaf1 node)"

definition setLeaf0 ::
  "('d, 'v, 'f) TREE_NODE option \<Rightarrow> ('d, 'v, 'f) TREE_NODE \<Rightarrow> ('d, 'v, 'f) TREE_NODE" where
  "setLeaf0 l node = TREE_NODE (flds node) l (leaf1 node)"

definition setLeaf1 ::
  "('d, 'v, 'f) TREE_NODE option \<Rightarrow> ('d, 'v, 'f) TREE_NODE \<Rightarrow> ('d, 'v, 'f) TREE_NODE" where
  "setLeaf1 l node = TREE_NODE (flds node) (leaf0 node) l"

text \<open>\<^verbatim>\<open>p->isVisited = true\<close>\<close>

definition markVisited :: "('d, 'v, 'f) TREE_NODE \<Rightarrow> ('d, 'v, 'f) TREE_NODE" where
  "markVisited node = setFields (\<lambda>g. g\<lparr>isVisited := True\<rparr>) node"

text \<open>
  A \<^verbatim>\<open>TREE_NODE*\<close> into the tree below \<^verbatim>\<open>m_tree\<close> is the way to it from the root.
\<close>

datatype leaf_index = Leaf0 | Leaf1

type_synonym node_ptr = "leaf_index list"

fun deref :: "node_ptr \<Rightarrow> ('d, 'v, 'f) TREE_NODE \<Rightarrow> ('d, 'v, 'f) TREE_NODE option" where
  "deref [] t = Some t"
| "deref (Leaf0 # p) t = (case leaf0 t of None \<Rightarrow> None | Some c \<Rightarrow> deref p c)"
| "deref (Leaf1 # p) t = (case leaf1 t of None \<Rightarrow> None | Some c \<Rightarrow> deref p c)"

text \<open>Storing the node (with all that hangs below it) that a pointer points to.\<close>

fun assign ::
  "node_ptr \<Rightarrow> ('d, 'v, 'f) TREE_NODE \<Rightarrow> ('d, 'v, 'f) TREE_NODE \<Rightarrow> ('d, 'v, 'f) TREE_NODE" where
  "assign [] n t = n"
| "assign (Leaf0 # p) n t =
     (case leaf0 t of None \<Rightarrow> t | Some c \<Rightarrow> setLeaf0 (Some (assign p n c)) t)"
| "assign (Leaf1 # p) n t =
     (case leaf1 t of None \<Rightarrow> t | Some c \<Rightarrow> setLeaf1 (Some (assign p n c)) t)"

text \<open>The static \<^verbatim>\<open>prepareTree\<close>.\<close>

fun prepareTree :: "('d, 'v, 'f) TREE_NODE \<Rightarrow> ('d, 'v, 'f) TREE_NODE" where
  "prepareTree (TREE_NODE g l0 l1) =
     TREE_NODE (g\<lparr>isVisited := False\<rparr>)
       (case l0 of
          None \<Rightarrow> None
        | Some c \<Rightarrow>
            if op g = TR_OP_FUNC_CALL
            then Some (TREE_NODE ((flds c)\<lparr>isVisited := False\<rparr>) None None)
            else Some (prepareTree c))
       (case l1 of None \<Rightarrow> None | Some c \<Rightarrow> Some (prepareTree c))"

text \<open>
  \<^verbatim>\<open>dumpNode\<close> only builds a debug string, but it follows leaf pointers without testing
  them; what is kept of it is whether it dereferences a null pointer.
\<close>

fun dumpNode :: "('d, 'v, 'f) TREE_NODE \<Rightarrow> fault + unit" where
  "dumpNode (TREE_NODE g l0 l1) =
     (case (if TR_OP_BINARY_MASK (op g) then
              (case l0 of
                 None \<Rightarrow> Inl NullDeref
               | Some a \<Rightarrow>
                   (case dumpNode a of
                      Inl e \<Rightarrow> Inl e
                    | Inr _ \<Rightarrow> (case l1 of None \<Rightarrow> Inl NullDeref | Some b \<Rightarrow> dumpNode b)))
            else Inr ()) of
        Inl e \<Rightarrow> Inl e
      | Inr _ \<Rightarrow>
          (case op g of
             TR_NUMBER \<Rightarrow> (case l0 of None \<Rightarrow> Inr () | Some a \<Rightarrow> dumpNode a)
           | TR_STRUCT_REF \<Rightarrow>
               (case l0 of
                  None \<Rightarrow> Inl NullDeref
                | Some a \<Rightarrow>
                    (case dumpNode a of
                       Inl e \<Rightarrow> Inl e
                     | Inr _ \<Rightarrow> (case l1 of None \<Rightarrow> Inl NullDeref | Some b \<Rightarrow> dumpNode b)))
           | TR_OP_FUNC_CALL \<Rightarrow>
               (case l0 of
                  None \<Rightarrow> Inl NullDeref
                | Some a \<Rightarrow>
                    (case value_str (flds a) of
                       None \<Rightarrow> Inl NullDeref
                     | Some _ \<Rightarrow> (case l1 of None \<Rightarrow> Inl NullDeref | Some b \<Rightarrow> dumpNode b)))
           | _ \<Rightarrow> Inr ()))"

subsection \<open>The code generator\<close>

text \<open>
  \<^verbatim>\<open>COMPILER::reportError\<close> on the compiler's error slot (the optional callback is the
  host's and is left out). \<open>sourcePos\<close> is the compiler's \<^verbatim>\<open>m_sourcePos\<close>.
\<close>

definition reportError ::
  "int \<Rightarrow> COMPILATION_STAGE \<Rightarrow> string \<Rightarrow> int \<Rightarrow> ERROR_STATUS \<Rightarrow> ERROR_STATUS" where
  "reportError sourcePos aStage aErrorMsg aPos es =
     es\<lparr>pendingError := True, stage := aStage, message := aErrorMsg,
        errPos := (if aPos = -1 then sourcePos else aPos)\<rparr>"

text \<open>\<^verbatim>\<open>msg.Printf( _( "... '%s'" ), name )\<close>, untranslated.\<close>

definition quoted :: "string \<Rightarrow> string \<Rightarrow> string" where
  "quoted text name = text @ [CHR 0x27] @ name @ [CHR 0x27]"

text \<open>The \<^verbatim>\<open>UOP\<close> constructors that the overloads of \<^verbatim>\<open>TREE_NODE::SetUop\<close> call.\<close>

definition UOP_value :: "opcode \<Rightarrow> 'd VALUE \<Rightarrow> ('d, 'v, 'f) UOP" where
  "UOP_value c v = \<lparr>m_op = c, m_value = Some v, m_ref = None, m_func = None\<rparr>"

definition UOP_ref :: "opcode \<Rightarrow> 'v option \<Rightarrow> ('d, 'v, 'f) UOP" where
  "UOP_ref c r = \<lparr>m_op = c, m_value = None, m_ref = r, m_func = None\<rparr>"

definition UOP_func :: "opcode \<Rightarrow> 'f option \<Rightarrow> 'v option \<Rightarrow> ('d, 'v, 'f) UOP" where
  "UOP_func c f r = \<lparr>m_op = c, m_value = None, m_ref = r, m_func = f\<rparr>"

definition SetUop :: "('d, 'v, 'f) UOP \<Rightarrow> ('d, 'v, 'f) TREE_NODE \<Rightarrow> ('d, 'v, 'f) TREE_NODE" where
  "SetUop u node = setFields (\<lambda>g. g\<lparr>uop := Some u\<rparr>) node"

definition setTerminal :: "bool \<Rightarrow> ('d, 'v, 'f) TREE_NODE \<Rightarrow> ('d, 'v, 'f) TREE_NODE" where
  "setTerminal b node = setFields (\<lambda>g. g\<lparr>isTerminal := b\<rparr>) node"

text \<open>
  The preflight of a function call: push the parameter text, call the function and pop
  its return value inside \<^verbatim>\<open>try\<close>, with an empty \<^verbatim>\<open>catch( ... )\<close>.
\<close>

definition preflightCall ::
  "('d, 'v, 'f) env \<Rightarrow> 'f \<Rightarrow> 'v option \<Rightarrow> string \<Rightarrow> 'd CONTEXT \<Rightarrow> fault + 'd CONTEXT" where
  "preflightCall E func vref paramStr ctx =
     (case callFunc E func (Push (Some (Text paramStr)) ctx) vref of
        Returned ctx' \<Rightarrow> (case Pop ctx' of Inl e \<Rightarrow> Inl e | Inr (_, ctx'') \<Rightarrow> Inr ctx'')
      | Threw ctx' \<Rightarrow> Inr ctx')"

text \<open>
  The \<^verbatim>\<open>TR_STRUCT_REF\<close> case of the \<^verbatim>\<open>switch\<close> in \<^verbatim>\<open>generateUCode\<close>, for a field
  (\<open>leaf1\<close> an identifier). The result is the node and the error slot.
\<close>

definition visitField ::
  "('d, 'v, 'f) env \<Rightarrow> int \<Rightarrow> ('d, 'v, 'f) TREE_NODE \<Rightarrow> ('d, 'v, 'f) TREE_NODE
     \<Rightarrow> ('d, 'v, 'f) TREE_NODE \<Rightarrow> ERROR_STATUS
     \<Rightarrow> fault + (('d, 'v, 'f) TREE_NODE \<times> ERROR_STATUS)" where
  "visitField E sourcePos node l0 l1 es =
     (case value_str (flds l0) of
        None \<Rightarrow> Inl NullDeref
      | Some itemName \<Rightarrow>
     (case value_str (flds l1) of
        None \<Rightarrow> Inl NullDeref
      | Some propName \<Rightarrow>
          (let vref = CreateVarRef E itemName propName;
               es' = (case vref of
                        None \<Rightarrow>
                          reportError sourcePos CST_CODEGEN (quoted ''Unrecognized item '' itemName)
                            (srcPos (flds l0) - int (length itemName)) es
                      | Some r \<Rightarrow>
                          if GetType E r = VT_PARSE_ERROR
                          then reportError sourcePos CST_CODEGEN
                                 (quoted ''Unrecognized property '' propName)
                                 (srcPos (flds l1) - int (length propName)) es
                          else es);
               node1 = setLeaf1 (Some (markVisited l1)) (setLeaf0 (Some (markVisited l0)) node)
           in Inr (setTerminal True (SetUop (UOP_ref TR_UOP_PUSH_VAR vref) node1), es'))))"

text \<open>
  The same case for a method call (\<open>leaf1\<close> a \<^verbatim>\<open>TR_OP_FUNC_CALL\<close>, whose leaves are the
  function's name and the parameter). The preflight is followed by the test
  \<^verbatim>\<open>if( !aPreflightContext->IsErrorPending() )\<close>.
\<close>

definition visitMethod ::
  "('d, 'v, 'f) env \<Rightarrow> int \<Rightarrow> ('d, 'v, 'f) TREE_NODE \<Rightarrow> ('d, 'v, 'f) TREE_NODE
     \<Rightarrow> ('d, 'v, 'f) TREE_NODE \<Rightarrow> ERROR_STATUS \<Rightarrow> 'd CONTEXT
     \<Rightarrow> fault + (('d, 'v, 'f) TREE_NODE \<times> ERROR_STATUS \<times> 'd CONTEXT)" where
  "visitMethod E sourcePos node l0 l1 es pctx =
     (case value_str (flds l0) of
        None \<Rightarrow> Inl NullDeref
      | Some itemName \<Rightarrow>
     (let vref = CreateVarRef E itemName [];
          es1 = (if vref = None
                 then reportError sourcePos CST_CODEGEN (quoted ''Unrecognized item '' itemName)
                        (srcPos (flds l0) - int (length itemName)) es
                 else es)
      in
     (case leaf0 l1 of
        None \<Rightarrow> Inl NullDeref
      | Some fname \<Rightarrow>
     (case value_str (flds fname) of
        None \<Rightarrow> Inl NullDeref
      | Some functionName \<Rightarrow>
     (let func = CreateFuncCall E functionName;
          es2 = (if func = None
                 then reportError sourcePos CST_CODEGEN
                        (quoted ''Unrecognized function '' functionName)
                        (srcPos (flds l0) + 1) es1
                 else es1);
          paramStr = (case value_str (flds node) of Some s \<Rightarrow> s | None \<Rightarrow> [])
      in
     (case (case func of
              None \<Rightarrow> Inr (es2, pctx)
            | Some f \<Rightarrow>
                (case preflightCall E f vref paramStr pctx of
                   Inl e \<Rightarrow> Inl e
                 | Inr pctx' \<Rightarrow>
                     if \<not> IsErrorPending pctx' then
                       (case leaf1 l1 of
                          None \<Rightarrow> Inl NullDeref
                        | Some param \<Rightarrow>
                            Inr (reportError sourcePos CST_CODEGEN (message (m_ctxError pctx'))
                                   (srcPos (flds param) - int (length paramStr) - 1) es2,
                                 pctx'))
                     else Inr (es2, pctx'))) of
        Inl e \<Rightarrow> Inl e
      | Inr (es3, pctx3) \<Rightarrow>
     (case leaf1 l1 of
        None \<Rightarrow> Inl NullDeref
      | Some param \<Rightarrow>
          (let l1' = SetUop (UOP_func TR_OP_METHOD_CALL func vref)
                       (setLeaf1 (Some (markVisited param))
                          (setLeaf0 (Some (markVisited fname)) (markVisited l1)));
               node1 = setLeaf1 (Some l1') (setLeaf0 (Some (markVisited l0)) node)
           in Inr (setTerminal False node1, es3, pctx3)))))))))"

text \<open>
  The \<^verbatim>\<open>switch( node->op )\<close> of the loop. The Boolean of the result tells that the node was
  replaced on the work stack by its call and the call's parameter.
\<close>

definition visitNode ::
  "('d, 'v, 'f) env \<Rightarrow> int \<Rightarrow> ('d, 'v, 'f) TREE_NODE \<Rightarrow> ERROR_STATUS \<Rightarrow> 'd CONTEXT
     \<Rightarrow> fault + (('d, 'v, 'f) TREE_NODE \<times> bool \<times> ERROR_STATUS \<times> 'd CONTEXT)" where
  "visitNode E sourcePos node es pctx =
     (case op (flds node) of
        TR_OP_FUNC_CALL \<Rightarrow>
          if uop (flds node) = None then Inl AssertFailed
          else Inr (setTerminal True node, False, es, pctx)
      | TR_STRUCT_REF \<Rightarrow>
          (case leaf0 node of
             None \<Rightarrow> Inl NullDeref
           | Some l0 \<Rightarrow>
               if op (flds l0) \<noteq> TR_IDENTIFIER then Inl AssertFailed
               else
                 (case leaf1 node of
                    None \<Rightarrow> Inl NullDeref
                  | Some l1 \<Rightarrow>
                      (case op (flds l1) of
                         TR_IDENTIFIER \<Rightarrow>
                           (case visitField E sourcePos node l0 l1 es of
                              Inl e \<Rightarrow> Inl e
                            | Inr (node', es') \<Rightarrow> Inr (node', False, es', pctx))
                       | TR_OP_FUNC_CALL \<Rightarrow>
                           (case visitMethod E sourcePos node l0 l1 es pctx of
                              Inl e \<Rightarrow> Inl e
                            | Inr (node', es', pctx') \<Rightarrow> Inr (node', True, es', pctx'))
                       | _ \<Rightarrow> Inr (node, False, es, pctx))))
      | TR_NUMBER \<Rightarrow>
          (case value_str (flds node) of
             None \<Rightarrow>
               Inr (setTerminal True
                      (SetUop (UOP_value TR_UOP_PUSH_VALUE (Numeric (d_zero (dbl E)))) node),
                    False, es, pctx)
           | Some str \<Rightarrow>
               (case leaf0 node of
                  None \<Rightarrow>
                    Inr (setTerminal True
                           (SetUop (UOP_value TR_UOP_PUSH_VALUE (Numeric (wxAtof (dbl E) str))) node),
                         False, es, pctx)
                | Some son \<Rightarrow>
                    if op (flds son) = TR_UNIT then
                      Inr (setTerminal True
                             (SetUop (UOP_value TR_UOP_PUSH_VALUE
                                        (Numeric (Convert E str (value_idx (flds son)))))
                                (setLeaf0 (Some (markVisited son)) node)),
                           False, es, pctx)
                    else
                      Inr (setTerminal True
                             (SetUop (UOP_value TR_UOP_PUSH_VALUE (Numeric (wxAtof (dbl E) str)))
                                node),
                           False, es, pctx)))
      | TR_STRING \<Rightarrow>
          (case value_str (flds node) of
             None \<Rightarrow> Inl NullDeref
           | Some str \<Rightarrow>
               Inr (setTerminal True (SetUop (UOP_value TR_UOP_PUSH_VALUE (Text str)) node),
                    False, es, pctx))
      | TR_IDENTIFIER \<Rightarrow>
          (case value_str (flds node) of
             None \<Rightarrow> Inl NullDeref
           | Some str \<Rightarrow>
               (let vref = CreateVarRef E str [];
                    es' = (if vref = None
                           then reportError sourcePos CST_CODEGEN (quoted ''Unrecognized item '' str)
                                  (srcPos (flds node) - int (length str)) es
                           else es)
                in Inr (setTerminal True (SetUop (UOP_ref TR_UOP_PUSH_VALUE vref) node),
                        False, es', pctx)))
      | _ \<Rightarrow>
          Inr (setTerminal
                 ((case leaf0 node of None \<Rightarrow> True | Some a \<Rightarrow> isVisited (flds a))
                  \<and> (case leaf1 node of None \<Rightarrow> True | Some b \<Rightarrow> isVisited (flds b)))
                 (SetUop (UOP_ref (op (flds node)) None) node),
               False, es, pctx))"

text \<open>
  The state of the \<^verbatim>\<open>while\<close> loop: the tree, the work stack (head = \<^verbatim>\<open>stack.back()\<close>), the
  program \<^verbatim>\<open>aCode\<close> so far, the compiler's error slot and the preflight context.
\<close>

record ('d, 'v, 'f) gen_state =
  g_tree :: "('d, 'v, 'f) TREE_NODE"
  g_stack :: "node_ptr list"
  g_code :: "('d, 'v, 'f) UOP list"
  g_error :: ERROR_STATUS
  g_preflight :: "'d CONTEXT"

text \<open>
  What follows the \<^verbatim>\<open>switch\<close> in the loop body: a node that is not terminal pushes its
  first unvisited leaf and the loop continues; a terminal node is marked visited, its
  instruction is appended to the program, and the stack is popped.
\<close>

definition afterSwitch ::
  "node_ptr \<Rightarrow> ('d, 'v, 'f) TREE_NODE \<Rightarrow> node_ptr list \<Rightarrow> ('d, 'v, 'f) UOP list
     \<Rightarrow> ('d, 'v, 'f) TREE_NODE \<times> node_ptr list \<times> ('d, 'v, 'f) UOP list" where
  "afterSwitch p node stk code =
     (if \<not> isTerminal (flds node) then
        (case leaf0 node of
           Some a \<Rightarrow>
             if \<not> isVisited (flds a)
             then (setLeaf0 (Some (markVisited a)) node, (p @ [Leaf0]) # stk, code)
             else
               (case leaf1 node of
                  Some b \<Rightarrow>
                    if \<not> isVisited (flds b)
                    then (setLeaf1 (Some (markVisited b)) node, (p @ [Leaf1]) # stk, code)
                    else (node, stk, code)
                | None \<Rightarrow> (node, stk, code))
         | None \<Rightarrow>
             (case leaf1 node of
                Some b \<Rightarrow>
                  if \<not> isVisited (flds b)
                  then (setLeaf1 (Some (markVisited b)) node, (p @ [Leaf1]) # stk, code)
                  else (node, stk, code)
              | None \<Rightarrow> (node, stk, code)))
      else
        (setFields (\<lambda>g. g\<lparr>uop := None\<rparr>) (markVisited node),
         tl stk,
         (case uop (flds node) of Some u \<Rightarrow> code @ [u] | None \<Rightarrow> code)))"

text \<open>One turn of the \<^verbatim>\<open>while( !stack.empty() )\<close> loop.\<close>

definition genBody ::
  "('d, 'v, 'f) env \<Rightarrow> int \<Rightarrow> ('d, 'v, 'f) gen_state \<Rightarrow> fault + ('d, 'v, 'f) gen_state" where
  "genBody E sourcePos s =
     (case g_stack s of
        [] \<Rightarrow> Inl NullDeref
      | p # ps \<Rightarrow>
          (case deref p (g_tree s) of
             None \<Rightarrow> Inl NullDeref
           | Some node \<Rightarrow>
               (case visitNode E sourcePos node (g_error s) (g_preflight s) of
                  Inl e \<Rightarrow> Inl e
                | Inr (node1, replaced, es, pctx) \<Rightarrow>
                    (case afterSwitch p node1
                            (if replaced then (p @ [Leaf1, Leaf1]) # (p @ [Leaf1]) # ps
                             else p # ps)
                            (g_code s) of
                       (node2, stk, code) \<Rightarrow>
                         Inr \<lparr>g_tree = assign p node2 (g_tree s), g_stack = stk, g_code = code,
                              g_error = es, g_preflight = pctx\<rparr>))))"

text \<open>The loop. It need not end on every tree; \<open>None\<close> is a loop that does not end.\<close>

partial_function (option) genLoop ::
  "('d, 'v, 'f) env \<Rightarrow> int \<Rightarrow> ('d, 'v, 'f) gen_state
     \<Rightarrow> (fault + ('d, 'v, 'f) gen_state) option" where
  "genLoop E sourcePos s =
     (if g_stack s = [] then Some (Inr s)
      else (case genBody E sourcePos s of
              Inl e \<Rightarrow> Some (Inl e)
            | Inr s' \<Rightarrow> genLoop E sourcePos s'))"

declare genLoop.simps [code]

subsection \<open>The lexer\<close>

text \<open>
  Modelled from the spec: the token codes \<^verbatim>\<open>G_*\<close> are in the missing \<^verbatim>\<open>grammar.h\<close>;
  \<open>G_NONE\<close> is the code 0, which the generated parser takes as its reset and which ends
  the token loop of \<^verbatim>\<open>Compile\<close>. A token carries its code and the \<^verbatim>\<open>str\<close> and \<^verbatim>\<open>idx\<close> of its
  value.
\<close>

datatype token_id =
    G_NONE | G_ENDS | G_VALUE | G_UNIT | G_STRING | G_IDENTIFIER
  | G_EQUAL | G_NOT_EQUAL | G_LESS_EQUAL_THAN | G_GREATER_EQUAL_THAN
  | G_BOOL_AND | G_BOOL_OR | G_PLUS | G_BOOL_NOT | G_MINUS | G_MULT | G_DIVIDE
  | G_LESS_THAN | G_GREATER_THAN | G_PARENL | G_PARENR | G_SEMCOL | G_STRUCT_REF

record T_TOKEN =
  token :: token_id
  tok_str :: "string option"
  tok_idx :: int

datatype LEXER_STATE = LS_DEFAULT | LS_STRING

text \<open>
  Modelled from the spec: the inline members of \<^verbatim>\<open>TOKENIZER\<close> (missing header).
  \<^verbatim>\<open>GetChar\<close> gives the character under the cursor, and 0 at the end of the string (the
  lexer tests \<^verbatim>\<open>ch == 0\<close> for the end of input).
\<close>

definition Done :: "TOKENIZER \<Rightarrow> bool" where
  "Done tk = (m_pos tk \<ge> length (m_str tk))"

definition GetChar :: "TOKENIZER \<Rightarrow> char" where
  "GetChar tk = (if m_pos tk \<ge> length (m_str tk) then CHR 0x00 else m_str tk ! m_pos tk)"

definition Restart :: "string \<Rightarrow> TOKENIZER" where
  "Restart aStr = \<lparr>m_str = aStr, m_pos = 0\<rparr>"

text \<open>\<^verbatim>\<open>TOKENIZER::GetChars\<close>\<close>

definition GetChars :: "(char \<Rightarrow> bool) \<Rightarrow> TOKENIZER \<Rightarrow> string" where
  "GetChars cond tk = takeWhile cond (drop (m_pos tk) (m_str tk))"

text \<open>
  The compiler object; \<open>'p\<close> is the state of the generated parser behind \<^verbatim>\<open>m_parser\<close>.
\<close>

record ('p, 'd, 'v, 'f) COMPILER =
  m_parser :: 'p
  m_tokenizer :: TOKENIZER
  m_localeDecimalSeparator :: char
  m_lexerState :: LEXER_STATE
  m_sourcePos :: int
  m_parseFinished :: bool
  m_tree :: "('d, 'v, 'f) TREE_NODE option"
  m_errorStatus :: ERROR_STATUS

text \<open>
  \<^verbatim>\<open>COMPILER::Clear\<close>: the tokenizer is cleared and the tree is freed together with the
  collected items. (Freeing memory is not modelled.)
\<close>

definition Clear :: "('p, 'd, 'v, 'f) COMPILER \<Rightarrow> ('p, 'd, 'v, 'f) COMPILER" where
  "Clear c = c\<lparr>m_tokenizer := Restart [], m_tree := None\<rparr>"

text \<open>\<^verbatim>\<open>COMPILER::newString\<close>\<close>

definition newString :: "string \<Rightarrow> ('p, 'd, 'v, 'f) COMPILER \<Rightarrow> ('p, 'd, 'v, 'f) COMPILER" where
  "newString aString c =
     (Clear c)\<lparr>m_lexerState := LS_DEFAULT, m_tokenizer := Restart aString,
               m_parseFinished := False\<rparr>"

text \<open>\<^verbatim>\<open>COMPILER::lexString\<close>\<close>

definition lexString ::
  "('p, 'd, 'v, 'f) COMPILER \<Rightarrow> bool \<times> T_TOKEN \<times> ('p, 'd, 'v, 'f) COMPILER" where
  "lexString c =
     (let str = GetChars (\<lambda>ch. ch \<noteq> CHR 0x27) (m_tokenizer c) in
      (True,
       \<lparr>token = G_STRING, tok_str = Some str, tok_idx = 0\<rparr>,
       c\<lparr>m_tokenizer := NextChar (length str + 1) (m_tokenizer c),
         m_lexerState := LS_DEFAULT\<rparr>))"

text \<open>The loop of \<^verbatim>\<open>lexDefault\<close> that removes blanks.\<close>

function skipSpaces :: "TOKENIZER \<Rightarrow> TOKENIZER" where
  "skipSpaces tk =
     (if GetChar tk = CHR 0x20 then skipSpaces (NextChar 1 tk) else tk)"
  by pat_completeness auto
termination
  by (relation "measure (\<lambda>tk. length (m_str tk) - m_pos tk)")
     (auto simp: GetChar_def NextChar_def split: if_splits)

declare skipSpaces.simps [simp del]

definition isDecimalSeparator :: "char \<Rightarrow> char \<Rightarrow> bool" where
  "isDecimalSeparator sep ch = (ch = sep \<or> ch = CHR 0x2E \<or> ch = CHR 0x2C)"

text \<open>
  The \<^verbatim>\<open>do ... while\<close> loop of the lambda \<^verbatim>\<open>extractNumber\<close>, entered with the character
  \<open>ch\<close> under the cursor: the text collected and the tokenizer after it.
\<close>

function extractLoop ::
  "char \<Rightarrow> bool \<Rightarrow> string \<Rightarrow> TOKENIZER \<Rightarrow> string \<times> TOKENIZER" where
  "extractLoop sep haveSeparator current tk =
     (let ch = GetChar tk in
      if isDecimalSeparator sep ch \<and> haveSeparator then (current, tk)
      else
        (let current' = current @ [ch];
             haveSeparator' = (haveSeparator \<or> isDecimalSeparator sep ch);
             tk' = NextChar 1 tk;
             ch' = GetChar tk'
         in if isdigit ch' \<or> isDecimalSeparator sep ch'
            then extractLoop sep haveSeparator' current' tk'
            else (current', tk')))"
  by pat_completeness auto
termination
  by (relation "measure (\<lambda>(sep, h, cur, tk).
                     2 * (length (m_str tk) - m_pos tk) + (if h then 0 else 1))")
     (auto simp: GetChar_def NextChar_def isdigit_def split: if_splits)

declare extractLoop.simps [simp del]

text \<open>\<^verbatim>\<open>extractNumber\<close>: the loop, then every separator becomes the locale's.\<close>

definition extractNumber :: "char \<Rightarrow> TOKENIZER \<Rightarrow> string \<times> TOKENIZER" where
  "extractNumber sep tk =
     (case extractLoop sep False [] tk of
        (current, tk') \<Rightarrow>
          (map (\<lambda>ch. if isDecimalSeparator sep ch then sep else ch) current, tk'))"

text \<open>The single character tokens of \<^verbatim>\<open>lexDefault\<close>; \<open>None\<close> is the \<^verbatim>\<open>default\<close> branch.\<close>

definition singleCharToken :: "char \<Rightarrow> token_id option" where
  "singleCharToken ch =
     (if ch = CHR 0x2B then Some G_PLUS
      else if ch = CHR 0x21 then Some G_BOOL_NOT
      else if ch = CHR 0x2D then Some G_MINUS
      else if ch = CHR 0x2A then Some G_MULT
      else if ch = CHR 0x2F then Some G_DIVIDE
      else if ch = CHR 0x3C then Some G_LESS_THAN
      else if ch = CHR 0x3E then Some G_GREATER_THAN
      else if ch = CHR 0x28 then Some G_PARENL
      else if ch = CHR 0x29 then Some G_PARENR
      else if ch = CHR 0x3B then Some G_SEMCOL
      else if ch = CHR 0x2E then Some G_STRUCT_REF
      else None)"

definition plainToken :: "token_id \<Rightarrow> T_TOKEN" where
  "plainToken t = \<lparr>token = t, tok_str = None, tok_idx = 0\<rparr>"

text \<open>
  The end of the \<^verbatim>\<open>if\<close> chain of \<^verbatim>\<open>lexDefault\<close>: the operators of two characters, then
  those of one, and the error for any other character.
\<close>

definition lexOperator ::
  "char \<Rightarrow> TOKENIZER \<Rightarrow> ('p, 'd, 'v, 'f) COMPILER
     \<Rightarrow> bool \<times> T_TOKEN \<times> ('p, 'd, 'v, 'f) COMPILER" where
  "lexOperator ch tk c =
     (if MatchAhead [CHR 0x3D, CHR 0x3D] (\<lambda>x. x \<noteq> CHR 0x3D) tk then
        (True, plainToken G_EQUAL, c\<lparr>m_tokenizer := NextChar 2 tk\<rparr>)
      else if MatchAhead [CHR 0x21, CHR 0x3D] (\<lambda>x. x \<noteq> CHR 0x3D) tk then
        (True, plainToken G_NOT_EQUAL, c\<lparr>m_tokenizer := NextChar 2 tk\<rparr>)
      else if MatchAhead [CHR 0x3C, CHR 0x3D] (\<lambda>x. x \<noteq> CHR 0x3D) tk then
        (True, plainToken G_LESS_EQUAL_THAN, c\<lparr>m_tokenizer := NextChar 2 tk\<rparr>)
      else if MatchAhead [CHR 0x3E, CHR 0x3D] (\<lambda>x. x \<noteq> CHR 0x3D) tk then
        (True, plainToken G_GREATER_EQUAL_THAN, c\<lparr>m_tokenizer := NextChar 2 tk\<rparr>)
      else if MatchAhead [CHR 0x26, CHR 0x26] (\<lambda>x. x \<noteq> CHR 0x26) tk then
        (True, plainToken G_BOOL_AND, c\<lparr>m_tokenizer := NextChar 2 tk\<rparr>)
      else if MatchAhead [CHR 0x7C, CHR 0x7C] (\<lambda>x. x \<noteq> CHR 0x7C) tk then
        (True, plainToken G_BOOL_OR, c\<lparr>m_tokenizer := NextChar 2 tk\<rparr>)
      else
        (case singleCharToken ch of
           Some t \<Rightarrow> (True, plainToken t, c\<lparr>m_tokenizer := NextChar 1 tk\<rparr>)
         | None \<Rightarrow>
             (True, plainToken G_ENDS,
              c\<lparr>m_tokenizer := NextChar 1 tk,
                m_errorStatus :=
                  reportError (m_sourcePos c) CST_PARSE
                    (quoted ''Unrecognized character '' [ch]) (-1) (m_errorStatus c)\<rparr>)))"

text \<open>
  \<^verbatim>\<open>COMPILER::lexDefault\<close>. The first component is the returned \<^verbatim>\<open>bool\<close> (token complete).
\<close>

definition lexDefault ::
  "('d, 'v, 'f) env \<Rightarrow> ('p, 'd, 'v, 'f) COMPILER
     \<Rightarrow> bool \<times> T_TOKEN \<times> ('p, 'd, 'v, 'f) COMPILER" where
  "lexDefault E c =
     (if Done (m_tokenizer c) then (True, plainToken G_ENDS, c)
      else
        (let tk = skipSpaces (m_tokenizer c);
             ch = GetChar tk
         in
         if ch = CHR 0x00 then (True, plainToken G_ENDS, c\<lparr>m_tokenizer := tk\<rparr>)
         else if isdigit ch then
           (case extractNumber (m_localeDecimalSeparator c) tk of
              (current, tk') \<Rightarrow>
                (True, \<lparr>token = G_VALUE, tok_str = Some current, tok_idx = 0\<rparr>,
                 c\<lparr>m_tokenizer := tk'\<rparr>))
         else
           (case resolveUnits E tk of
              (convertFrom, tk1) \<Rightarrow>
                if convertFrom \<ge> 0 then
                  (True, \<lparr>token = G_UNIT, tok_str = None, tok_idx = convertFrom\<rparr>,
                   c\<lparr>m_tokenizer := tk1\<rparr>)
                else if ch = CHR 0x27 then
                  (False, plainToken G_ENDS,
                   c\<lparr>m_tokenizer := NextChar 1 tk1, m_lexerState := LS_STRING\<rparr>)
                else if isalpha ch \<or> ch = CHR 0x5F then
                  (let current = GetChars (\<lambda>x. isalnum x \<or> x = CHR 0x5F) tk1 in
                   (True, \<lparr>token = G_IDENTIFIER, tok_str = Some current, tok_idx = 0\<rparr>,
                    c\<lparr>m_tokenizer := NextChar (length current) tk1\<rparr>))
                else lexOperator ch tk1 c)))"

lemma lexOperator_done: "fst (lexOperator ch tk c) = True"
  by (simp add: lexOperator_def split: option.split)

lemma lexDefault_not_done:
  "lexDefault E c = (False, rv, c') \<Longrightarrow> m_lexerState c' = LS_STRING"
proof -
  assume a: "lexDefault E c = (False, rv, c')"
  have "fst (lexDefault E c) \<or> m_lexerState (snd (snd (lexDefault E c))) = LS_STRING"
    by (simp add: lexDefault_def Let_def lexOperator_done split: prod.split)
  with a show ?thesis by simp
qed

text \<open>
  \<^verbatim>\<open>COMPILER::getToken\<close>: the \<^verbatim>\<open>do ... while( !done )\<close> loop over the lexer state.
  \<^verbatim>\<open>lexString\<close> always completes a token, and \<^verbatim>\<open>lexDefault\<close> leaves a token incomplete only
  when it has switched to \<^verbatim>\<open>LS_STRING\<close>.
\<close>

function getToken ::
  "('d, 'v, 'f) env \<Rightarrow> ('p, 'd, 'v, 'f) COMPILER \<Rightarrow> T_TOKEN \<times> ('p, 'd, 'v, 'f) COMPILER" where
  "getToken E c =
     (case m_lexerState c of
        LS_DEFAULT \<Rightarrow>
          (case lexDefault E c of (done, rv, c') \<Rightarrow> if done then (rv, c') else getToken E c')
      | LS_STRING \<Rightarrow>
          (case lexString c of (done, rv, c') \<Rightarrow> if done then (rv, c') else getToken E c'))"
  by pat_completeness auto
termination
  by (relation "measure (\<lambda>(E, c). if m_lexerState c = LS_STRING then 0 else 1)")
     (auto simp: lexString_def Let_def dest: lexDefault_not_done[OF sym])

declare getToken.simps [simp del]

subsection \<open>Compiling\<close>

text \<open>
  Modelled from the spec: the generated parser (\<^verbatim>\<open>grammar.c\<close>) is not among the sources.
  It is a parameter: fed a token code, the token and the compiler's source position (from
  which \<^verbatim>\<open>newNode\<close> stamps the nodes it builds), it moves to a new parser state and calls
  back into the compiler, through \<^verbatim>\<open>parseError\<close>, \<^verbatim>\<open>parseOk\<close> and \<^verbatim>\<open>setRoot\<close>.
\<close>

datatype ('d, 'v, 'f) parser_call =
    CallParseError string
  | CallParseOk
  | CallSetRoot "('d, 'v, 'f) TREE_NODE"

type_synonym ('p, 'd, 'v, 'f) parser =
  "'p \<Rightarrow> token_id \<Rightarrow> T_TOKEN \<Rightarrow> int \<Rightarrow> 'p \<times> ('d, 'v, 'f) parser_call list"

text \<open>\<^verbatim>\<open>COMPILER::parseError\<close>, \<^verbatim>\<open>COMPILER::parseOk\<close>, \<^verbatim>\<open>COMPILER::setRoot\<close>\<close>

fun parserCall ::
  "('d, 'v, 'f) parser_call \<Rightarrow> ('p, 'd, 'v, 'f) COMPILER \<Rightarrow> ('p, 'd, 'v, 'f) COMPILER" where
  "parserCall (CallParseError s) c =
     c\<lparr>m_errorStatus := reportError (m_sourcePos c) CST_PARSE s (-1) (m_errorStatus c)\<rparr>"
| "parserCall CallParseOk c = c\<lparr>m_parseFinished := True\<rparr>"
| "parserCall (CallSetRoot t) c = c\<lparr>m_tree := Some t\<rparr>"

text \<open>\<^verbatim>\<open>Parse( m_parser, id, tok, this )\<close>\<close>

definition Parse ::
  "('p, 'd, 'v, 'f) parser \<Rightarrow> token_id \<Rightarrow> T_TOKEN \<Rightarrow> ('p, 'd, 'v, 'f) COMPILER
     \<Rightarrow> ('p, 'd, 'v, 'f) COMPILER" where
  "Parse P t tok c =
     (case P (m_parser c) t tok (m_sourcePos c) of
        (p', calls) \<Rightarrow> fold parserCall calls (c\<lparr>m_parser := p'\<rparr>))"

text \<open>
  \<^verbatim>\<open>COMPILER::generateUCode\<close>. The result is the returned \<^verbatim>\<open>bool\<close>, the compiler, the program
  \<^verbatim>\<open>aCode\<close> and the preflight context; \<open>None\<close> when the loop does not end.
\<close>

definition generateUCode ::
  "('d, 'v, 'f) env \<Rightarrow> ('p, 'd, 'v, 'f) COMPILER \<Rightarrow> ('d, 'v, 'f) UOP list \<Rightarrow> 'd CONTEXT
     \<Rightarrow> (fault + (bool \<times> ('p, 'd, 'v, 'f) COMPILER \<times> ('d, 'v, 'f) UOP list \<times> 'd CONTEXT))
          option" where
  "generateUCode E c aCode aPreflightContext =
     (case m_tree c of
        None \<Rightarrow>
          Some (Inr (True, c,
                     aCode @ [UOP_value TR_UOP_PUSH_VALUE (Numeric (d_one (dbl E)))],
                     aPreflightContext))
      | Some tree \<Rightarrow>
          (let tree' = prepareTree tree in
           case dumpNode tree' of
             Inl e \<Rightarrow> Some (Inl e)
           | Inr _ \<Rightarrow>
               (case genLoop E (m_sourcePos c)
                       \<lparr>g_tree = tree', g_stack = [[]], g_code = aCode,
                        g_error = m_errorStatus c, g_preflight = aPreflightContext\<rparr> of
                  None \<Rightarrow> None
                | Some (Inl e) \<Rightarrow> Some (Inl e)
                | Some (Inr s) \<Rightarrow>
                    Some (Inr (True,
                               c\<lparr>m_tree := Some (g_tree s), m_errorStatus := g_error s\<rparr>,
                               g_code s, g_preflight s)))))"

text \<open>
  The \<^verbatim>\<open>do ... while( tok.token )\<close> loop of \<^verbatim>\<open>Compile\<close>. The Boolean of the result is
  \<open>False\<close> where the loop leaves \<^verbatim>\<open>Compile\<close> by \<^verbatim>\<open>return false\<close>. With a parser that never
  finishes, and tokens that consume nothing, the loop need not end.
\<close>

partial_function (option) tokenLoop ::
  "('d, 'v, 'f) env \<Rightarrow> ('p, 'd, 'v, 'f) parser \<Rightarrow> ('p, 'd, 'v, 'f) COMPILER
     \<Rightarrow> (bool \<times> ('p, 'd, 'v, 'f) COMPILER) option" where
  "tokenLoop E P c =
     (case getToken E (c\<lparr>m_sourcePos := int (m_pos (m_tokenizer c))\<rparr>) of
        (tok, c1) \<Rightarrow>
          (let c2 = Parse P (token tok) tok c1 in
           if pendingError (m_errorStatus c2) then Some (False, c2)
           else if m_parseFinished c2 \<or> token tok = G_ENDS
             then Some (True, Parse P G_NONE tok c2)
           else if token tok \<noteq> G_NONE then tokenLoop E P c2
           else Some (True, c2)))"

declare tokenLoop.simps [code]

text \<open>\<^verbatim>\<open>COMPILER::Compile\<close>\<close>

definition Compile ::
  "('d, 'v, 'f) env \<Rightarrow> ('p, 'd, 'v, 'f) parser \<Rightarrow> string \<Rightarrow> ('p, 'd, 'v, 'f) COMPILER
     \<Rightarrow> ('d, 'v, 'f) UOP list \<Rightarrow> 'd CONTEXT
     \<Rightarrow> (fault + (bool \<times> ('p, 'd, 'v, 'f) COMPILER \<times> ('d, 'v, 'f) UOP list \<times> 'd CONTEXT))
          option" where
  "Compile E P aString c aCode aPreflightContext =
     (let c1 = (newString aString c)\<lparr>m_tree := None, m_parseFinished := False\<rparr> in
      if aString = [] then
        generateUCode E (c1\<lparr>m_parseFinished := True\<rparr>) aCode aPreflightContext
      else
        (case tokenLoop E P c1 of
           None \<Rightarrow> None
         | Some (False, c2) \<Rightarrow> Some (Inr (False, c2, aCode, aPreflightContext))
         | Some (True, c2) \<Rightarrow> generateUCode E c2 aCode aPreflightContext))"

text \<open>
  The constructor \<^verbatim>\<open>COMPILER::COMPILER\<close>, for a parser in the state \<open>p\<close>. Of the error slot it
  sets \<^verbatim>\<open>pendingError\<close> only; the other three fields are given fixed values here.
\<close>

definition newCompiler :: "'p \<Rightarrow> ('p, 'd, 'v, 'f) COMPILER" where
  "newCompiler p =
     \<lparr>m_parser = p, m_tokenizer = Restart [], m_localeDecimalSeparator = CHR 0x2E,
      m_lexerState = LS_DEFAULT, m_sourcePos = 0, m_parseFinished = False, m_tree = None,
      m_errorStatus = \<lparr>pendingError = False, stage = CST_PARSE, message = [], errPos = 0\<rparr>\<rparr>"

text \<open>A fresh \<^verbatim>\<open>CONTEXT\<close>: an empty stack, no error pending.\<close>

definition newContext :: "'d CONTEXT" where
  "newContext =
     \<lparr>m_stack = [],
      m_ctxError = \<lparr>pendingError = False, stage = CST_PARSE, message = [], errPos = 0\<rparr>\<rparr>"

subsection \<open>A small host, for concrete runs\<close>

text \<open>
  \<^verbatim>\<open>newNode\<close>, for a node made at the source position \<open>pos\<close> (\<^verbatim>\<open>compiler->GetSourcePos()\<close>),
  together with the assignments to \<^verbatim>\<open>leaf[0]\<close> and \<^verbatim>\<open>leaf[1]\<close> that the grammar actions make
  after it. \<^verbatim>\<open>newNode\<close> leaves \<^verbatim>\<open>isVisited\<close> unset; \<open>prepareTree\<close> sets it before it is read.
\<close>

definition newNode ::
  "opcode \<Rightarrow> string option \<Rightarrow> int \<Rightarrow> int
     \<Rightarrow> ('d, 'v, 'f) TREE_NODE option \<Rightarrow> ('d, 'v, 'f) TREE_NODE option
     \<Rightarrow> ('d, 'v, 'f) TREE_NODE" where
  "newNode c str idx pos l0 l1 =
     TREE_NODE \<lparr>value_str = str, value_idx = idx, op = c, isTerminal = False,
                isVisited = False, srcPos = pos, uop = None\<rparr> l0 l1"

text \<open>
  A host over the reals, used only to run the definitions on concrete inputs. Its numbers
  are written with digits only; it knows one item, \<open>A\<close>, with the property \<open>Width\<close>, and
  two functions: \<open>anyArg\<close> replaces its argument by 1, \<open>onLayer\<close> does the same for the
  argument \<open>F.Cu\<close> and reports an error through the context for any other argument.
\<close>

definition digitsValue :: "string \<Rightarrow> real" where
  "digitsValue s = real (foldl (\<lambda>n ch. 10 * n + (of_char ch - 48)) 0 s)"

definition realOps :: "real dbl_ops" where
  "realOps =
     \<lparr>d_zero = 0, d_one = 1,
      d_add = (\<lambda>a b. a + b), d_sub = (\<lambda>a b. a - b),
      d_mul = (\<lambda>a b. a * b), d_div = (\<lambda>a b. a / b),
      d_le = (\<lambda>a b. a \<le> b), d_ge = (\<lambda>a b. a \<ge> b),
      d_lt = (\<lambda>a b. a < b), d_gt = (\<lambda>a b. a > b),
      d_eq = (\<lambda>a b. a = b),
      wxAtof = digitsValue, textAsDouble = (\<lambda>s. 0)\<rparr>"

definition hostCall ::
  "string \<Rightarrow> real CONTEXT \<Rightarrow> (string \<times> string) option \<Rightarrow> real CONTEXT call_result" where
  "hostCall f ctx r =
     (case m_stack ctx of
        [] \<Rightarrow> Threw ctx
      | arg # rest \<Rightarrow>
          if f = ''onLayer'' \<and> arg \<noteq> Some (Text ''F.Cu'')
          then Returned (ReportError ''Unrecognized layer''
                           (ctx\<lparr>m_stack := Some (Numeric 0) # rest\<rparr>))
          else Returned (ctx\<lparr>m_stack := Some (Numeric 1) # rest\<rparr>))"

definition hostEnv :: "(real, string \<times> string, string) env" where
  "hostEnv =
     \<lparr>dbl = realOps,
      GetType = (\<lambda>(item, prop). if prop = [] \<or> prop = ''Width''
                                  then VT_NUMERIC else VT_PARSE_ERROR),
      GetValue = (\<lambda>r ctx. Numeric 7),
      callFunc = hostCall,
      CreateVarRef = (\<lambda>item prop. if item = ''A'' then Some (item, prop) else None),
      CreateFuncCall = (\<lambda>name. if name = ''anyArg'' \<or> name = ''onLayer''
                                 then Some name else None),
      GetSupportedUnits = [''mil'', ''mm'', ''in''],
      Convert = (\<lambda>s idx. digitsValue s * (if idx = 0 then 25400 else
                                           if idx = 1 then 1000000 else 25400000))\<rparr>"

subsection \<open>Trees of the grammar, and hosts that keep the calling convention\<close>

text \<open>
  Modelled from the spec: the grammar is not among the sources. These are the shapes of
  tree that the spec gives to the parser, and that the generator's comments name: a
  number (with an optional unit below it), a string, an identifier, a struct reference
  \<open>object.field\<close> or \<open>object.function(parameter)\<close>, a binary operator over two trees, and
  boolean not over one.
\<close>

definition isName :: "('d, 'v, 'f) TREE_NODE \<Rightarrow> bool" where
  "isName t =
     (op (flds t) = TR_IDENTIFIER \<and> value_str (flds t) \<noteq> None
      \<and> leaf0 t = None \<and> leaf1 t = None)"

fun wellFormed :: "('d, 'v, 'f) TREE_NODE \<Rightarrow> bool" where
  "wellFormed (TREE_NODE g l0 l1) =
     (case op g of
        TR_NUMBER \<Rightarrow>
          l1 = None
          \<and> (case l0 of
               None \<Rightarrow> True
             | Some son \<Rightarrow> op (flds son) = TR_UNIT \<and> leaf0 son = None \<and> leaf1 son = None)
      | TR_STRING \<Rightarrow> value_str g \<noteq> None \<and> l0 = None \<and> l1 = None
      | TR_IDENTIFIER \<Rightarrow> value_str g \<noteq> None \<and> l0 = None \<and> l1 = None
      | TR_STRUCT_REF \<Rightarrow>
          (case l0 of
             None \<Rightarrow> False
           | Some a \<Rightarrow>
               isName a
               \<and> (case l1 of
                    None \<Rightarrow> False
                  | Some b \<Rightarrow>
                      (case b of
                         TREE_NODE gb fname param \<Rightarrow>
                           if op gb = TR_IDENTIFIER then isName b
                           else op gb = TR_OP_FUNC_CALL
                                \<and> (case fname of
                                     None \<Rightarrow> False
                                   | Some n \<Rightarrow>
                                       op (flds n) = TR_IDENTIFIER
                                       \<and> value_str (flds n) \<noteq> None)
                                \<and> (case param of
                                     None \<Rightarrow> False
                                   | Some x \<Rightarrow> wellFormed x))))
      | _ \<Rightarrow>
          if TR_OP_BINARY_MASK (op g) then
            (case l0 of
               None \<Rightarrow> False
             | Some a \<Rightarrow>
                 wellFormed a \<and> (case l1 of None \<Rightarrow> False | Some b \<Rightarrow> wellFormed b))
          else if TR_OP_UNARY_MASK (op g) then
            (case l0 of None \<Rightarrow> False | Some a \<Rightarrow> wellFormed a \<and> l1 = None)
          else False)"

text \<open>No node of the tree is marked visited: the state in which \<open>prepareTree\<close> leaves it.\<close>

fun allUnvisited :: "('d, 'v, 'f) TREE_NODE \<Rightarrow> bool" where
  "allUnvisited (TREE_NODE g l0 l1) =
     (\<not> isVisited g
      \<and> (case l0 of None \<Rightarrow> True | Some a \<Rightarrow> allUnvisited a)
      \<and> (case l1 of None \<Rightarrow> True | Some b \<Rightarrow> allUnvisited b))"

definition belowUnvisited :: "('d, 'v, 'f) TREE_NODE \<Rightarrow> bool" where
  "belowUnvisited t =
     ((case leaf0 t of None \<Rightarrow> True | Some a \<Rightarrow> allUnvisited a)
      \<and> (case leaf1 t of None \<Rightarrow> True | Some b \<Rightarrow> allUnvisited b))"

fun nodes :: "('d, 'v, 'f) TREE_NODE \<Rightarrow> nat" where
  "nodes (TREE_NODE g l0 l1) =
     Suc ((case l0 of None \<Rightarrow> 0 | Some a \<Rightarrow> nodes a)
          + (case l1 of None \<Rightarrow> 0 | Some b \<Rightarrow> nodes b))"

text \<open>
  The calling convention of function references (spec, external interfaces): called on a
  stack with its argument on top, a function returns, having replaced the argument by one
  result.
\<close>

definition hostContract :: "('d, 'v, 'f) env \<Rightarrow> bool" where
  "hostContract E =
     (\<forall>f ctx r arg rest.
        m_stack ctx = arg # rest \<longrightarrow>
        (\<exists>ctx' res. callFunc E f ctx r = Returned ctx' \<and> m_stack ctx' = res # rest))"

text \<open>
  The parser keeps to the grammar when every root it sets is a well-formed tree; the
  compiler's tree is then none, or well-formed.
\<close>

definition parserWellFormed :: "('p, 'd, 'v, 'f) parser \<Rightarrow> bool" where
  "parserWellFormed P =
     (\<forall>p tk tok pos t. CallSetRoot t \<in> set (snd (P p tk tok pos)) \<longrightarrow> wellFormed t)"

definition treeOk :: "('p, 'd, 'v, 'f) COMPILER \<Rightarrow> bool" where
  "treeOk c = (case m_tree c of None \<Rightarrow> True | Some t \<Rightarrow> wellFormed t)"

text \<open>
  The property of a program that the stack invariant of the virtual machine is about: run
  on any context, the program ends without a fault, and leaves one more value on the stack,
  above the values that were there.
\<close>

definition pushesOne :: "('d, 'v, 'f) env \<Rightarrow> ('d, 'v, 'f) UOP list \<Rightarrow> bool" where
  "pushesOne E prog =
     (\<forall>ctx. \<exists>v ctx'. runOps E prog ctx = Inr ctx' \<and> m_stack ctx' = v # m_stack ctx)"

text \<open>The state of the generator's loop, written in one line.\<close>

abbreviation genState ::
  "('d, 'v, 'f) TREE_NODE \<Rightarrow> node_ptr list \<Rightarrow> ('d, 'v, 'f) UOP list \<Rightarrow> ERROR_STATUS
     \<Rightarrow> 'd CONTEXT \<Rightarrow> ('d, 'v, 'f) gen_state" where
  "genState T stk code es pctx \<equiv>
     \<lparr>g_tree = T, g_stack = stk, g_code = code, g_error = es, g_preflight = pctx\<rparr>"

subsection \<open>Expressions for concrete runs\<close>

text \<open>
  A stand-in for the generated parser on one input: it takes the tokens as they come and, at
  the end of the input, sets the root to the tree \<open>t\<close> and reports that it has finished.
\<close>

definition fixedParser :: "('d, 'v, 'f) TREE_NODE \<Rightarrow> (unit, 'd, 'v, 'f) parser" where
  "fixedParser t = (\<lambda>p tk tok pos. (p, if tk = G_ENDS then [CallSetRoot t, CallParseOk] else []))"

text \<open>
  The tree of \<open>item.prop\<close>, each identifier stamped with the source position at which the
  parser has read it to its end.
\<close>

definition fieldTree :: "string \<Rightarrow> string \<Rightarrow> (real, string \<times> string, string) TREE_NODE" where
  "fieldTree item prop =
     newNode TR_STRUCT_REF None 0 (int (length item + length prop) + 1)
       (Some (newNode TR_IDENTIFIER (Some item) 0 (int (length item)) None None))
       (Some (newNode TR_IDENTIFIER (Some prop) 0 (int (length item + length prop) + 1)
                None None))"

text \<open>
  The tree of \<open>!1\<close>: the operator node with its operand as \<^verbatim>\<open>leaf[0]\<close> and no \<^verbatim>\<open>leaf[1]\<close>.
\<close>

definition notOneTree :: "(real, string \<times> string, string) TREE_NODE" where
  "notOneTree =
     newNode TR_OP_BOOL_NOT None 0 2
       (Some (newNode TR_NUMBER (Some ''1'') 0 2 None None)) None"

text \<open>
  The tree of \<open>A.f('arg')\<close>: the struct reference, the object, and the call with the
  function's name and its parameter. \<open>own\<close> is the string of the struct reference node
  itself, which is the text that the preflight pushes (the empty text where there is none).
\<close>

definition methodCallTree ::
  "string option \<Rightarrow> string \<Rightarrow> string \<Rightarrow> (real, string \<times> string, string) TREE_NODE" where
  "methodCallTree own f arg =
     newNode TR_STRUCT_REF own 0 (int (length f + length arg) + 6)
       (Some (newNode TR_IDENTIFIER (Some ''A'') 0 1 None None))
       (Some (newNode TR_OP_FUNC_CALL None 0 (int (length f + length arg) + 6)
                (Some (newNode TR_IDENTIFIER (Some f) 0 (int (length f) + 2) None None))
                (Some (newNode TR_STRING (Some arg) 0 (int (length f + length arg) + 5)
                         None None))))"

text \<open>The text of \<open>A.foo('x')\<close>.\<close>

definition unknownCallText :: string where
  "unknownCallText = ''A.foo('' @ [CHR 0x27] @ ''x'' @ [CHR 0x27] @ '')''"

text \<open>
  The tree and the text of \<open>A.onLayer('B.Xx')==0\<close>. (The compiler reports no error for
  it because the host function does report one during the preflight.)
\<close>

definition balanceTree :: "(real, string \<times> string, string) TREE_NODE" where
  "balanceTree =
     newNode TR_OP_EQUAL None 0 20
       (Some (methodCallTree (Some ''B.Xx'') ''onLayer'' ''B.Xx''))
       (Some (newNode TR_NUMBER (Some ''0'') 0 20 None None))"

definition balanceText :: string where
  "balanceText = ''A.onLayer('' @ [CHR 0x27] @ ''B.Xx'' @ [CHR 0x27] @ '')==0''"

section \<open>Properties\<close>

subsection \<open>The virtual machine\<close>

lemma ExecOperator_binary:
  "TR_OP_BINARY_MASK c \<Longrightarrow>
   ExecOperator D c (ctx\<lparr>m_stack := arg2 # arg1 # rest\<rparr>)
     = Inr (ctx\<lparr>m_stack := Some (Numeric (binaryResult D c arg1 arg2)) # rest\<rparr>)"
  by (simp add: ExecOperator_def Pop_def Push_def)

lemma Exec_operator:
  "TR_OP_BINARY_MASK (m_op u) \<Longrightarrow> Exec E u ctx = ExecOperator (dbl E) (m_op u) ctx"
  by (auto simp: Exec_def TR_OP_BINARY_MASK_def)

lemma Exec_binary_result:
  "TR_OP_BINARY_MASK (m_op u) \<Longrightarrow>
   Exec E u (ctx\<lparr>m_stack := arg2 # arg1 # rest\<rparr>)
     = Inr (ctx\<lparr>m_stack := Some (Numeric (binaryResult (dbl E) (m_op u) arg1 arg2)) # rest\<rparr>)"
  by (simp add: Exec_operator ExecOperator_binary)

lemma Exec_push_value:
  "m_op u = TR_UOP_PUSH_VALUE \<Longrightarrow> Exec E u ctx = Inr (Push (m_value u) ctx)"
  by (simp add: Exec_def)

lemma runOps_append:
  "runOps E (xs @ ys) ctx =
     (case runOps E xs ctx of Inl e \<Rightarrow> Inl e | Inr ctx' \<Rightarrow> runOps E ys ctx')"
  by (induction xs arbitrary: ctx) (auto split: sum.splits)

text \<open>
  C1. A binary opcode run on a stack that holds \<open>arg2\<close> on top of \<open>arg1\<close> pops both, the
  first popped (\<open>arg2\<close>) being the right operand \<open>r\<close> and the second (\<open>arg1\<close>) the left
  operand \<open>l\<close>, and pushes one numeric value. Coerced to numeric, a number is itself, a
  text is what the host's conversion makes of it and a null operand is 0.0. The value
  pushed is the sum, difference, product or quotient of \<open>l\<close> and \<open>r\<close>; 1.0 if the relation
  holds of \<open>l\<close> and \<open>r\<close> and 0.0 if not, for the four relations; 1.0 or 0.0 for equality, and
  the opposite for inequality, where two operands are equal if both are numbers and equal
  as such or both are texts with the same content; 1.0 or 0.0 for and/or of the tests that
  \<open>l\<close> and \<open>r\<close> are not 0.0. In particular the programs of \<open>'abc' == 'abc'\<close> and of
  \<open>'abc' != 'xyz'\<close> run to 1.0, and the program of \<open>'abc' == 'xyz'\<close> runs to 0.0.
\<close>

theorem Exec_binary:
  "(m_op u \<in> {TR_OP_ADD, TR_OP_SUB, TR_OP_MUL, TR_OP_DIV, TR_OP_LESS, TR_OP_GREATER,
              TR_OP_LESS_EQUAL, TR_OP_GREATER_EQUAL, TR_OP_EQUAL, TR_OP_NOT_EQUAL,
              TR_OP_BOOL_AND, TR_OP_BOOL_OR} \<longrightarrow>
    (let D = dbl E;
         l = (case arg1 of None \<Rightarrow> d_zero D
              | Some (Numeric x) \<Rightarrow> x | Some (Text s) \<Rightarrow> textAsDouble D s);
         r = (case arg2 of None \<Rightarrow> d_zero D
              | Some (Numeric y) \<Rightarrow> y | Some (Text t) \<Rightarrow> textAsDouble D t);
         same = (case arg1 of
                   None \<Rightarrow> False
                 | Some (Numeric x) \<Rightarrow>
                     (case arg2 of Some (Numeric y) \<Rightarrow> d_eq D x y | _ \<Rightarrow> False)
                 | Some (Text s) \<Rightarrow>
                     (case arg2 of Some (Text t) \<Rightarrow> s = t | _ \<Rightarrow> False))
     in \<exists>result.
       Exec E u (ctx\<lparr>m_stack := arg2 # arg1 # rest\<rparr>)
         = Inr (ctx\<lparr>m_stack := Some (Numeric result) # rest\<rparr>)
       \<and> (m_op u = TR_OP_ADD \<longrightarrow> result = d_add D l r)
       \<and> (m_op u = TR_OP_SUB \<longrightarrow> result = d_sub D l r)
       \<and> (m_op u = TR_OP_MUL \<longrightarrow> result = d_mul D l r)
       \<and> (m_op u = TR_OP_DIV \<longrightarrow> result = d_div D l r)
       \<and> (m_op u = TR_OP_LESS \<longrightarrow> result = (if d_lt D l r then d_one D else d_zero D))
       \<and> (m_op u = TR_OP_GREATER \<longrightarrow> result = (if d_gt D l r then d_one D else d_zero D))
       \<and> (m_op u = TR_OP_LESS_EQUAL \<longrightarrow>
            result = (if d_le D l r then d_one D else d_zero D))
       \<and> (m_op u = TR_OP_GREATER_EQUAL \<longrightarrow>
            result = (if d_ge D l r then d_one D else d_zero D))
       \<and> (m_op u = TR_OP_EQUAL \<longrightarrow> result = (if same then d_one D else d_zero D))
       \<and> (m_op u = TR_OP_NOT_EQUAL \<longrightarrow> result = (if same then d_zero D else d_one D))
       \<and> (m_op u = TR_OP_BOOL_AND \<longrightarrow>
            result = (if \<not> d_eq D l (d_zero D) \<and> \<not> d_eq D r (d_zero D)
                      then d_one D else d_zero D))
       \<and> (m_op u = TR_OP_BOOL_OR \<longrightarrow>
            result = (if \<not> d_eq D l (d_zero D) \<or> \<not> d_eq D r (d_zero D)
                      then d_one D else d_zero D))))
   \<and> Run E [\<lparr>m_op = TR_UOP_PUSH_VALUE, m_value = Some (Text ''abc''),
               m_ref = None, m_func = None\<rparr>,
             \<lparr>m_op = TR_UOP_PUSH_VALUE, m_value = Some (Text ''abc''),
               m_ref = None, m_func = None\<rparr>,
             \<lparr>m_op = TR_OP_EQUAL, m_value = None, m_ref = None, m_func = None\<rparr>]
          (ctx\<lparr>m_stack := []\<rparr>)
        = Inr (Some (Numeric (d_one (dbl E))), ctx\<lparr>m_stack := []\<rparr>)
   \<and> Run E [\<lparr>m_op = TR_UOP_PUSH_VALUE, m_value = Some (Text ''abc''),
               m_ref = None, m_func = None\<rparr>,
             \<lparr>m_op = TR_UOP_PUSH_VALUE, m_value = Some (Text ''xyz''),
               m_ref = None, m_func = None\<rparr>,
             \<lparr>m_op = TR_OP_NOT_EQUAL, m_value = None, m_ref = None, m_func = None\<rparr>]
          (ctx\<lparr>m_stack := []\<rparr>)
        = Inr (Some (Numeric (d_one (dbl E))), ctx\<lparr>m_stack := []\<rparr>)
   \<and> Run E [\<lparr>m_op = TR_UOP_PUSH_VALUE, m_value = Some (Text ''abc''),
               m_ref = None, m_func = None\<rparr>,
             \<lparr>m_op = TR_UOP_PUSH_VALUE, m_value = Some (Text ''xyz''),
               m_ref = None, m_func = None\<rparr>,
             \<lparr>m_op = TR_OP_EQUAL, m_value = None, m_ref = None, m_func = None\<rparr>]
          (ctx\<lparr>m_stack := []\<rparr>)
        = Inr (Some (Numeric (d_zero (dbl E))), ctx\<lparr>m_stack := []\<rparr>)"
proof (intro conjI impI)
  assume bin: "m_op u \<in> {TR_OP_ADD, TR_OP_SUB, TR_OP_MUL, TR_OP_DIV, TR_OP_LESS, TR_OP_GREATER,
              TR_OP_LESS_EQUAL, TR_OP_GREATER_EQUAL, TR_OP_EQUAL, TR_OP_NOT_EQUAL,
              TR_OP_BOOL_AND, TR_OP_BOOL_OR}"
  then have mask: "TR_OP_BINARY_MASK (m_op u)"
    by (auto simp: TR_OP_BINARY_MASK_def)
  have l: "(case arg1 of None \<Rightarrow> d_zero (dbl E)
            | Some (Numeric x) \<Rightarrow> x | Some (Text s) \<Rightarrow> textAsDouble (dbl E) s)
           = argValue (dbl E) arg1"
    by (simp add: argValue_def split: option.splits VALUE.splits)
  have r: "(case arg2 of None \<Rightarrow> d_zero (dbl E)
            | Some (Numeric x) \<Rightarrow> x | Some (Text s) \<Rightarrow> textAsDouble (dbl E) s)
           = argValue (dbl E) arg2"
    by (simp add: argValue_def split: option.splits VALUE.splits)
  have same: "(case arg1 of
                   None \<Rightarrow> False
                 | Some (Numeric x) \<Rightarrow>
                     (case arg2 of Some (Numeric y) \<Rightarrow> d_eq (dbl E) x y | _ \<Rightarrow> False)
                 | Some (Text s) \<Rightarrow>
                     (case arg2 of Some (Text t) \<Rightarrow> s = t | _ \<Rightarrow> False))
              = ptrEqualTo (dbl E) arg1 arg2"
    by (simp add: ptrEqualTo_def split: option.splits VALUE.splits)
  show "let D = dbl E;
         l = (case arg1 of None \<Rightarrow> d_zero D
              | Some (Numeric x) \<Rightarrow> x | Some (Text s) \<Rightarrow> textAsDouble D s);
         r = (case arg2 of None \<Rightarrow> d_zero D
              | Some (Numeric y) \<Rightarrow> y | Some (Text t) \<Rightarrow> textAsDouble D t);
         same = (case arg1 of
                   None \<Rightarrow> False
                 | Some (Numeric x) \<Rightarrow>
                     (case arg2 of Some (Numeric y) \<Rightarrow> d_eq D x y | _ \<Rightarrow> False)
                 | Some (Text s) \<Rightarrow>
                     (case arg2 of Some (Text t) \<Rightarrow> s = t | _ \<Rightarrow> False))
     in \<exists>result.
       Exec E u (ctx\<lparr>m_stack := arg2 # arg1 # rest\<rparr>)
         = Inr (ctx\<lparr>m_stack := Some (Numeric result) # rest\<rparr>)
       \<and> (m_op u = TR_OP_ADD \<longrightarrow> result = d_add D l r)
       \<and> (m_op u = TR_OP_SUB \<longrightarrow> result = d_sub D l r)
       \<and> (m_op u = TR_OP_MUL \<longrightarrow> result = d_mul D l r)
       \<and> (m_op u = TR_OP_DIV \<longrightarrow> result = d_div D l r)
       \<and> (m_op u = TR_OP_LESS \<longrightarrow> result = (if d_lt D l r then d_one D else d_zero D))
       \<and> (m_op u = TR_OP_GREATER \<longrightarrow> result = (if d_gt D l r then d_one D else d_zero D))
       \<and> (m_op u = TR_OP_LESS_EQUAL \<longrightarrow>
            result = (if d_le D l r then d_one D else d_zero D))
       \<and> (m_op u = TR_OP_GREATER_EQUAL \<longrightarrow>
            result = (if d_ge D l r then d_one D else d_zero D))
       \<and> (m_op u = TR_OP_EQUAL \<longrightarrow> result = (if same then d_one D else d_zero D))
       \<and> (m_op u = TR_OP_NOT_EQUAL \<longrightarrow> result = (if same then d_zero D else d_one D))
       \<and> (m_op u = TR_OP_BOOL_AND \<longrightarrow>
            result = (if \<not> d_eq D l (d_zero D) \<and> \<not> d_eq D r (d_zero D)
                      then d_one D else d_zero D))
       \<and> (m_op u = TR_OP_BOOL_OR \<longrightarrow>
            result = (if \<not> d_eq D l (d_zero D) \<or> \<not> d_eq D r (d_zero D)
                      then d_one D else d_zero D))"
    unfolding Let_def l r same
    using Exec_binary_result[OF mask]
    by (intro exI[of _ "binaryResult (dbl E) (m_op u) arg1 arg2"])
       (simp add: binaryResult_def cond01_def)
qed (simp_all add: Run_def Exec_def ExecOperator_def TR_OP_BINARY_MASK_def
          Push_def Pop_def SP_def binaryResult_def cond01_def ptrEqualTo_def)


theorem Exec_binary_witness:
  "Exec hostEnv \<lparr>m_op = TR_OP_SUB, m_value = None, m_ref = None, m_func = None\<rparr>
        (newContext\<lparr>m_stack := [Some (Numeric 2), Some (Numeric 5), Some (Text ''abc'')]\<rparr>)
      = Inr (newContext\<lparr>m_stack := [Some (Numeric 3), Some (Text ''abc'')]\<rparr>)
   \<and> Exec hostEnv \<lparr>m_op = TR_OP_DIV, m_value = None, m_ref = None, m_func = None\<rparr>
        (newContext\<lparr>m_stack := [Some (Numeric 2), Some (Numeric 6)]\<rparr>)
      = Inr (newContext\<lparr>m_stack := [Some (Numeric 3)]\<rparr>)
   \<and> Exec hostEnv \<lparr>m_op = TR_OP_LESS, m_value = None, m_ref = None, m_func = None\<rparr>
        (newContext\<lparr>m_stack := [Some (Numeric 5), Some (Numeric 2)]\<rparr>)
      = Inr (newContext\<lparr>m_stack := [Some (Numeric 1)]\<rparr>)
   \<and> Exec hostEnv \<lparr>m_op = TR_OP_LESS, m_value = None, m_ref = None, m_func = None\<rparr>
        (newContext\<lparr>m_stack := [Some (Numeric 2), Some (Numeric 5)]\<rparr>)
      = Inr (newContext\<lparr>m_stack := [Some (Numeric 0)]\<rparr>)
   \<and> Exec hostEnv \<lparr>m_op = TR_OP_GREATER_EQUAL, m_value = None, m_ref = None, m_func = None\<rparr>
        (newContext\<lparr>m_stack := [Some (Numeric 5), Some (Numeric 2)]\<rparr>)
      = Inr (newContext\<lparr>m_stack := [Some (Numeric 0)]\<rparr>)
   \<and> Exec hostEnv \<lparr>m_op = TR_OP_EQUAL, m_value = None, m_ref = None, m_func = None\<rparr>
        (newContext\<lparr>m_stack := [Some (Text ''xyz''), Some (Text ''abc'')]\<rparr>)
      = Inr (newContext\<lparr>m_stack := [Some (Numeric 0)]\<rparr>)
   \<and> Exec hostEnv \<lparr>m_op = TR_OP_NOT_EQUAL, m_value = None, m_ref = None, m_func = None\<rparr>
        (newContext\<lparr>m_stack := [Some (Numeric 4), Some (Numeric 4)]\<rparr>)
      = Inr (newContext\<lparr>m_stack := [Some (Numeric 0)]\<rparr>)
   \<and> Exec hostEnv \<lparr>m_op = TR_OP_BOOL_AND, m_value = None, m_ref = None, m_func = None\<rparr>
        (newContext\<lparr>m_stack := [Some (Numeric 0), Some (Numeric 3)]\<rparr>)
      = Inr (newContext\<lparr>m_stack := [Some (Numeric 0)]\<rparr>)
   \<and> Exec hostEnv \<lparr>m_op = TR_OP_BOOL_OR, m_value = None, m_ref = None, m_func = None\<rparr>
        (newContext\<lparr>m_stack := [Some (Numeric 0), Some (Numeric 3)]\<rparr>)
      = Inr (newContext\<lparr>m_stack := [Some (Numeric 1)]\<rparr>)"
  using
    Exec_binary[where E = hostEnv and ctx = newContext
      and u = "\<lparr>m_op = TR_OP_SUB, m_value = None, m_ref = None, m_func = None\<rparr>"
      and ?arg2.0 = "Some (Numeric 2)" and ?arg1.0 = "Some (Numeric 5)"
      and rest = "[Some (Text ''abc'')]"]
    Exec_binary[where E = hostEnv and ctx = newContext
      and u = "\<lparr>m_op = TR_OP_DIV, m_value = None, m_ref = None, m_func = None\<rparr>"
      and ?arg2.0 = "Some (Numeric 2)" and ?arg1.0 = "Some (Numeric 6)" and rest = "[]"]
    Exec_binary[where E = hostEnv and ctx = newContext
      and u = "\<lparr>m_op = TR_OP_LESS, m_value = None, m_ref = None, m_func = None\<rparr>"
      and ?arg2.0 = "Some (Numeric 5)" and ?arg1.0 = "Some (Numeric 2)" and rest = "[]"]
    Exec_binary[where E = hostEnv and ctx = newContext
      and u = "\<lparr>m_op = TR_OP_LESS, m_value = None, m_ref = None, m_func = None\<rparr>"
      and ?arg2.0 = "Some (Numeric 2)" and ?arg1.0 = "Some (Numeric 5)" and rest = "[]"]
    Exec_binary[where E = hostEnv and ctx = newContext
      and u = "\<lparr>m_op = TR_OP_GREATER_EQUAL, m_value = None, m_ref = None, m_func = None\<rparr>"
      and ?arg2.0 = "Some (Numeric 5)" and ?arg1.0 = "Some (Numeric 2)" and rest = "[]"]
    Exec_binary[where E = hostEnv and ctx = newContext
      and u = "\<lparr>m_op = TR_OP_EQUAL, m_value = None, m_ref = None, m_func = None\<rparr>"
      and ?arg2.0 = "Some (Text ''xyz'')" and ?arg1.0 = "Some (Text ''abc'')" and rest = "[]"]
    Exec_binary[where E = hostEnv and ctx = newContext
      and u = "\<lparr>m_op = TR_OP_NOT_EQUAL, m_value = None, m_ref = None, m_func = None\<rparr>"
      and ?arg2.0 = "Some (Numeric 4)" and ?arg1.0 = "Some (Numeric 4)" and rest = "[]"]
    Exec_binary[where E = hostEnv and ctx = newContext
      and u = "\<lparr>m_op = TR_OP_BOOL_AND, m_value = None, m_ref = None, m_func = None\<rparr>"
      and ?arg2.0 = "Some (Numeric 0)" and ?arg1.0 = "Some (Numeric 3)" and rest = "[]"]
    Exec_binary[where E = hostEnv and ctx = newContext
      and u = "\<lparr>m_op = TR_OP_BOOL_OR, m_value = None, m_ref = None, m_func = None\<rparr>"
      and ?arg2.0 = "Some (Numeric 0)" and ?arg1.0 = "Some (Numeric 3)" and rest = "[]"]
  by (simp add: hostEnv_def realOps_def Let_def)

subsection \<open>The empty expression\<close>

text \<open>
  C7. Compiling the empty string succeeds, whatever the compiler's state and the parser; the
  program is the single instruction that pushes the literal 1.0, and running it on an
  empty stack returns the numeric value 1.0.
\<close>

theorem Compile_empty:
  "(\<exists>c'. Compile E P [] c [] aPreflightContext
           = Some (Inr (True, c', [UOP_value TR_UOP_PUSH_VALUE (Numeric (d_one (dbl E)))],
                        aPreflightContext)))
   \<and> Run E [UOP_value TR_UOP_PUSH_VALUE (Numeric (d_one (dbl E)))] (ctx\<lparr>m_stack := []\<rparr>)
       = Inr (Some (Numeric (d_one (dbl E))), ctx\<lparr>m_stack := []\<rparr>)"
  by (simp add: Compile_def generateUCode_def newString_def Clear_def Run_def Exec_def
        UOP_value_def Push_def Pop_def SP_def)

subsection \<open>Boolean not\<close>

lemmas gen_eval_defs =
  generateUCode_def genLoop.simps genBody_def visitNode_def visitField_def visitMethod_def
  preflightCall_def afterSwitch_def setTerminal_def SetUop_def setFields_def markVisited_def
  setLeaf0_def setLeaf1_def UOP_ref_def UOP_value_def UOP_func_def newNode_def
  reportError_def quoted_def TR_OP_BINARY_MASK_def IsErrorPending_def Push_def Pop_def Let_def

lemmas host_eval_defs =
  hostEnv_def realOps_def digitsValue_def hostCall_def ReportError_def newCompiler_def
  newContext_def Restart_def

lemmas run_eval_defs =
  Run_def Exec_def ExecOperator_def TR_OP_BINARY_MASK_def TR_OP_UNARY_MASK_def SP_def
  Push_def Pop_def binaryResult_def argValue_def cond01_def ptrEqualTo_def

text \<open>
  C10, as stated, fails: the program of \<open>!1\<close> is the push of 1 followed by the
  boolean-not instruction, and it ends with one value on the operand stack, not with more
  than one.
\<close>

theorem not_program_counterexample:
  "(case generateUCode hostEnv ((newCompiler ())\<lparr>m_tree := Some notOneTree\<rparr>) [] newContext of
      Some (Inr (ok, c, code, p)) \<Rightarrow>
        code = [UOP_value TR_UOP_PUSH_VALUE (Numeric 1), UOP_ref TR_OP_BOOL_NOT None]
        \<and> runOps hostEnv code newContext = Inr (newContext\<lparr>m_stack := [Some (Numeric 1)]\<rparr>)
        \<and> \<not> 1 < length (m_stack (newContext\<lparr>m_stack := [Some (Numeric (1::real))]\<rparr>))
    | _ \<Rightarrow> False)"
  by (simp add: notOneTree_def gen_eval_defs host_eval_defs run_eval_defs)

text \<open>
  C10, amended. An instruction whose opcode matches the unary mask leaves the context as it
  is: nothing is popped, nothing is pushed. So a program followed by boolean not runs to
  the same context as the program alone: the operand stays on the stack, not negated, and
  the stack holds no more values than without the instruction.
\<close>

theorem Exec_unary_noop:
  "TR_OP_UNARY_MASK (m_op u) \<Longrightarrow>
   Exec E u ctx = Inr ctx \<and> runOps E (code @ [u]) ctx = runOps E code ctx"
  by (auto simp: runOps_append Exec_def ExecOperator_def TR_OP_UNARY_MASK_def
        TR_OP_BINARY_MASK_def split: sum.splits)

theorem Exec_unary_noop_witness:
  "TR_OP_UNARY_MASK (m_op (UOP_ref TR_OP_BOOL_NOT None :: (real, string \<times> string, string) UOP))
   \<and> Exec hostEnv (UOP_ref TR_OP_BOOL_NOT None)
        (newContext\<lparr>m_stack := [Some (Numeric 0)]\<rparr>)
      = Inr (newContext\<lparr>m_stack := [Some (Numeric 0)]\<rparr>)
   \<and> runOps hostEnv [UOP_value TR_UOP_PUSH_VALUE (Numeric 0), UOP_ref TR_OP_BOOL_NOT None]
        newContext
      = Inr (newContext\<lparr>m_stack := [Some (Numeric 0)]\<rparr>)"
proof -
  let ?u = "UOP_ref TR_OP_BOOL_NOT None :: (real, string \<times> string, string) UOP"
  have un: "TR_OP_UNARY_MASK (m_op ?u)"
    by (simp add: UOP_ref_def TR_OP_UNARY_MASK_def)
  have one: "runOps hostEnv [UOP_value TR_UOP_PUSH_VALUE (Numeric 0)] newContext
               = Inr (newContext\<lparr>m_stack := [Some (Numeric 0)]\<rparr>)"
    by (simp add: Exec_def UOP_value_def Push_def newContext_def)
  from Exec_unary_noop[OF un, where E = hostEnv
        and ctx = "newContext\<lparr>m_stack := [Some (Numeric 0)]\<rparr>" and code = "[]"]
       Exec_unary_noop[OF un, where E = hostEnv and ctx = newContext
        and code = "[UOP_value TR_UOP_PUSH_VALUE (Numeric 0)]"] one un
  show ?thesis by simp
qed

subsection \<open>Bare identifiers\<close>

text \<open>
  C6 fails on the code. For a bare identifier the generator builds the instruction with the
  opcode \<^verbatim>\<open>TR_UOP_PUSH_VALUE\<close> around the variable reference (the struct reference case
  uses \<^verbatim>\<open>TR_UOP_PUSH_VAR\<close>), whether or not the resolver knows the name; executed, the
  instruction pushes its null value pointer and never fetches the variable.
\<close>

theorem identifier_emits_push_value:
  "(\<exists>c'. generateUCode E (c\<lparr>m_tree := Some (newNode TR_IDENTIFIER (Some name) idx pos None None)\<rparr>)
            aCode pctx
          = Some (Inr (True, c', aCode @ [UOP_ref TR_UOP_PUSH_VALUE (CreateVarRef E name [])],
                       pctx)))
   \<and> Exec E (UOP_ref TR_UOP_PUSH_VALUE r) ctx = Inr (ctx\<lparr>m_stack := None # m_stack ctx\<rparr>)
   \<and> CreateVarRef hostEnv ''A'' [] = Some (''A'', [])
   \<and> Run hostEnv [UOP_ref TR_UOP_PUSH_VALUE (Some (''A'', []))] newContext
       = Inr (None, newContext)"
  by (simp add: gen_eval_defs host_eval_defs run_eval_defs)

subsection \<open>The preflight of a method call\<close>

text \<open>
  C4 fails on the code: the test after the preflight is negated. Where the host function
  signals no error (\<open>onLayer\<close> for \<open>F.Cu\<close>, \<open>anyArg\<close> for any text), the generator reports
  a CodeGen error, with the empty message of the preflight context; where the host function
  signals an error (\<open>onLayer\<close> for \<open>B.Xx\<close> and for the empty text), the generator reports
  nothing. This is so whether or not the struct reference node holds the parameter text.
\<close>

theorem preflight_test_negated:
  "(case generateUCode hostEnv
           ((newCompiler ())\<lparr>m_tree :=
               Some (methodCallTree (Some ''F.Cu'') ''onLayer'' ''F.Cu'')\<rparr>)
           [] newContext of
      Some (Inr (ok, c, code, p)) \<Rightarrow>
        ok \<and> \<not> IsErrorPending p
        \<and> m_errorStatus c
            = \<lparr>pendingError = True, stage = CST_CODEGEN, message = [], errPos = 11\<rparr>
    | _ \<Rightarrow> False)
   \<and> (case generateUCode hostEnv
           ((newCompiler ())\<lparr>m_tree := Some (methodCallTree None ''anyArg'' ''F.Cu'')\<rparr>)
           [] newContext of
      Some (Inr (ok, c, code, p)) \<Rightarrow>
        ok \<and> \<not> IsErrorPending p
        \<and> m_errorStatus c
            = \<lparr>pendingError = True, stage = CST_CODEGEN, message = [], errPos = 14\<rparr>
    | _ \<Rightarrow> False)
   \<and> (case generateUCode hostEnv
           ((newCompiler ())\<lparr>m_tree :=
               Some (methodCallTree (Some ''B.Xx'') ''onLayer'' ''B.Xx'')\<rparr>)
           [] newContext of
      Some (Inr (ok, c, code, p)) \<Rightarrow>
        ok \<and> IsErrorPending p \<and> message (m_ctxError p) = ''Unrecognized layer''
        \<and> \<not> pendingError (m_errorStatus c)
    | _ \<Rightarrow> False)
   \<and> (case generateUCode hostEnv
           ((newCompiler ())\<lparr>m_tree := Some (methodCallTree None ''onLayer'' ''B.Xx'')\<rparr>)
           [] newContext of
      Some (Inr (ok, c, code, p)) \<Rightarrow>
        ok \<and> IsErrorPending p \<and> message (m_ctxError p) = ''Unrecognized layer''
        \<and> \<not> pendingError (m_errorStatus c)
    | _ \<Rightarrow> False)"
  by (simp add: methodCallTree_def gen_eval_defs host_eval_defs)

subsection \<open>Unit suffixes\<close>

lemma MatchAhead_iff:
  "MatchAhead u stopCond tk \<longleftrightarrow>
     m_pos tk + length u \<le> length (m_str tk)
     \<and> take (length u) (drop (m_pos tk) (m_str tk)) = u
     \<and> (m_pos tk + length u = length (m_str tk)
        \<or> stopCond (m_str tk ! (m_pos tk + length u)))"
  by (auto simp: MatchAhead_def Let_def)

lemma resolveUnitsFrom_hit:
  "resolveUnitsFrom units k tk = (unitId, tk') \<Longrightarrow> unitId \<noteq> -1 \<Longrightarrow> 0 \<le> k \<Longrightarrow>
     k \<le> unitId \<and> nat (unitId - k) < length units
     \<and> MatchAhead (units ! nat (unitId - k)) (\<lambda>c. \<not> isalnum c) tk
     \<and> (\<forall>j < nat (unitId - k). \<not> MatchAhead (units ! j) (\<lambda>c. \<not> isalnum c) tk)
     \<and> tk' = NextChar (length (units ! nat (unitId - k))) tk"
proof (induction units arbitrary: k)
  case Nil
  then show ?case by simp
next
  case (Cons unitName units)
  show ?case
  proof (cases "MatchAhead unitName (\<lambda>c. \<not> isalnum c) tk")
    case True
    with Cons.prems show ?thesis by simp
  next
    case False
    with Cons.prems have rec: "resolveUnitsFrom units (k + 1) tk = (unitId, tk')"
      by simp
    from Cons.IH[OF rec] Cons.prems
    have ih: "k + 1 \<le> unitId" "nat (unitId - (k + 1)) < length units"
      "MatchAhead (units ! nat (unitId - (k + 1))) (\<lambda>c. \<not> isalnum c) tk"
      "\<forall>j < nat (unitId - (k + 1)). \<not> MatchAhead (units ! j) (\<lambda>c. \<not> isalnum c) tk"
      "tk' = NextChar (length (units ! nat (unitId - (k + 1)))) tk"
      by auto
    have idx: "nat (unitId - k) = Suc (nat (unitId - (k + 1)))"
      using ih(1) by simp
    have "\<forall>j < nat (unitId - k). \<not> MatchAhead ((unitName # units) ! j) (\<lambda>c. \<not> isalnum c) tk"
    proof (intro allI impI)
      fix j assume "j < nat (unitId - k)"
      then show "\<not> MatchAhead ((unitName # units) ! j) (\<lambda>c. \<not> isalnum c) tk"
        using False ih(4) idx by (cases j) auto
    qed
    with ih idx show ?thesis by simp
  qed
qed

lemma resolveUnitsFrom_miss:
  "resolveUnitsFrom units k tk = (unitId, tk') \<Longrightarrow> 0 \<le> k \<Longrightarrow> unitId < 0 \<Longrightarrow>
     unitId = -1 \<and> tk' = tk \<and> (\<forall>u \<in> set units. \<not> MatchAhead u (\<lambda>c. \<not> isalnum c) tk)"
  by (induction units arbitrary: k) (auto split: if_splits)

lemma MatchAhead_alnum_unique:
  assumes u: "MatchAhead u (\<lambda>c. \<not> isalnum c) tk"
    and v: "MatchAhead v (\<lambda>c. \<not> isalnum c) tk"
    and av: "\<forall>c \<in> set v. isalnum c"
    and le: "length u \<le> length v"
  shows "u = v"
proof (rule ccontr)
  assume ne: "u \<noteq> v"
  let ?rest = "drop (m_pos tk) (m_str tk)"
  from u have pu: "take (length u) ?rest = u" and lu: "m_pos tk + length u \<le> length (m_str tk)"
    and su: "m_pos tk + length u = length (m_str tk)
             \<or> \<not> isalnum (m_str tk ! (m_pos tk + length u))"
    by (auto simp: MatchAhead_iff)
  from v have pv: "take (length v) ?rest = v" and lv: "m_pos tk + length v \<le> length (m_str tk)"
    by (auto simp: MatchAhead_iff)
  have "take (length u) v = u"
    using pu pv le by (metis min.absorb1 take_take)
  with ne le have lt: "length u < length v"
    by (metis le_neq_implies_less take_all_iff order_refl)
  have "v ! length u = ?rest ! length u"
    using pv lt by (metis nth_take)
  also have "\<dots> = m_str tk ! (m_pos tk + length u)"
    using lv lt by simp
  finally have "isalnum (m_str tk ! (m_pos tk + length u))"
    using av lt by (metis nth_mem)
  with su lv lt show False by simp
qed

text \<open>
  C8, as stated, fails: the units are tried in the order in which the unit resolver lists
  them and the first that matches is taken, not the longest. With the units \<open>m\<close> and
  \<open>m/s\<close>, in this order, the text \<open>m/s\<close> is read as the unit \<open>m\<close>, although the longer
  \<open>m/s\<close> matches too.
\<close>

theorem resolveUnits_counterexample:
  "fst (resolveUnits (hostEnv\<lparr>GetSupportedUnits := [''m'', ''m/s'']\<rparr>)
          \<lparr>m_str = ''2m/s'', m_pos = 1\<rparr>) = 0
   \<and> MatchAhead ''m/s'' (\<lambda>c. \<not> isalnum c) \<lparr>m_str = ''2m/s'', m_pos = 1\<rparr>
   \<and> length ''m'' < length ''m/s''"
  by code_simp

text \<open>
  C8, amended. Unit matching takes the first unit, in the resolver's order, that matches
  ahead, and moves the cursor past it; it gives -1, and leaves the cursor, when none
  matches. A unit matches ahead exactly when the text at the cursor starts with it and
  either ends there or goes on with a character that is not alphanumeric; so a unit name
  followed by an alphanumeric character is never taken. Where the unit names are
  alphanumeric, at most one of them matches at a cursor, and the first match is then also
  the longest.
\<close>

theorem resolveUnits_first_match:
  "(case resolveUnits E tk of
      (unitId, tk') \<Rightarrow>
        (0 \<le> unitId \<longrightarrow>
           nat unitId < length (GetSupportedUnits E)
           \<and> MatchAhead (GetSupportedUnits E ! nat unitId) (\<lambda>c. \<not> isalnum c) tk
           \<and> (\<forall>j < nat unitId. \<not> MatchAhead (GetSupportedUnits E ! j) (\<lambda>c. \<not> isalnum c) tk)
           \<and> tk' = NextChar (length (GetSupportedUnits E ! nat unitId)) tk)
        \<and> (unitId < 0 \<longrightarrow>
             unitId = -1 \<and> tk' = tk
             \<and> (\<forall>u \<in> set (GetSupportedUnits E). \<not> MatchAhead u (\<lambda>c. \<not> isalnum c) tk)))
   \<and> (MatchAhead u (\<lambda>c. \<not> isalnum c) tk \<longleftrightarrow>
        m_pos tk + length u \<le> length (m_str tk)
        \<and> take (length u) (drop (m_pos tk) (m_str tk)) = u
        \<and> (m_pos tk + length u = length (m_str tk)
           \<or> \<not> isalnum (m_str tk ! (m_pos tk + length u))))
   \<and> (MatchAhead u (\<lambda>c. \<not> isalnum c) tk \<and> MatchAhead v (\<lambda>c. \<not> isalnum c) tk
        \<and> (\<forall>c \<in> set u. isalnum c) \<and> (\<forall>c \<in> set v. isalnum c) \<longrightarrow> u = v)"
proof (intro conjI)
  obtain unitId tk' where r: "resolveUnits E tk = (unitId, tk')"
    by (cases "resolveUnits E tk")
  then have r': "resolveUnitsFrom (GetSupportedUnits E) 0 tk = (unitId, tk')"
    by (simp add: resolveUnits_def)
  have hit: "0 \<le> unitId \<longrightarrow>
           nat unitId < length (GetSupportedUnits E)
           \<and> MatchAhead (GetSupportedUnits E ! nat unitId) (\<lambda>c. \<not> isalnum c) tk
           \<and> (\<forall>j < nat unitId. \<not> MatchAhead (GetSupportedUnits E ! j) (\<lambda>c. \<not> isalnum c) tk)
           \<and> tk' = NextChar (length (GetSupportedUnits E ! nat unitId)) tk"
    using resolveUnitsFrom_hit[OF r'] by auto
  have miss: "unitId < 0 \<longrightarrow>
             unitId = -1 \<and> tk' = tk
             \<and> (\<forall>u \<in> set (GetSupportedUnits E). \<not> MatchAhead u (\<lambda>c. \<not> isalnum c) tk)"
    using resolveUnitsFrom_miss[OF r'] by auto
  from hit miss r
  show "case resolveUnits E tk of
      (unitId, tk') \<Rightarrow>
        (0 \<le> unitId \<longrightarrow>
           nat unitId < length (GetSupportedUnits E)
           \<and> MatchAhead (GetSupportedUnits E ! nat unitId) (\<lambda>c. \<not> isalnum c) tk
           \<and> (\<forall>j < nat unitId. \<not> MatchAhead (GetSupportedUnits E ! j) (\<lambda>c. \<not> isalnum c) tk)
           \<and> tk' = NextChar (length (GetSupportedUnits E ! nat unitId)) tk)
        \<and> (unitId < 0 \<longrightarrow>
             unitId = -1 \<and> tk' = tk
             \<and> (\<forall>u \<in> set (GetSupportedUnits E). \<not> MatchAhead u (\<lambda>c. \<not> isalnum c) tk))"
    by simp
next
  show "MatchAhead u (\<lambda>c. \<not> isalnum c) tk \<longleftrightarrow>
        m_pos tk + length u \<le> length (m_str tk)
        \<and> take (length u) (drop (m_pos tk) (m_str tk)) = u
        \<and> (m_pos tk + length u = length (m_str tk)
           \<or> \<not> isalnum (m_str tk ! (m_pos tk + length u)))"
    by (rule MatchAhead_iff)
next
  show "MatchAhead u (\<lambda>c. \<not> isalnum c) tk \<and> MatchAhead v (\<lambda>c. \<not> isalnum c) tk
        \<and> (\<forall>c \<in> set u. isalnum c) \<and> (\<forall>c \<in> set v. isalnum c) \<longrightarrow> u = v"
  proof (intro impI, elim conjE)
    assume m: "MatchAhead u (\<lambda>c. \<not> isalnum c) tk" "MatchAhead v (\<lambda>c. \<not> isalnum c) tk"
      and a: "\<forall>c \<in> set u. isalnum c" "\<forall>c \<in> set v. isalnum c"
    show "u = v"
    proof (cases "length u \<le> length v")
      case True
      then show ?thesis using MatchAhead_alnum_unique[OF m(1) m(2) a(2)] by simp
    next
      case False
      then show ?thesis using MatchAhead_alnum_unique[OF m(2) m(1) a(1)] by simp
    qed
  qed
qed

theorem resolveUnits_first_match_witness:
  "resolveUnits hostEnv \<lparr>m_str = ''3mm+1'', m_pos = 1\<rparr> = (1, \<lparr>m_str = ''3mm+1'', m_pos = 3\<rparr>)
   \<and> (0::int) \<le> 1
   \<and> nat 1 < length (GetSupportedUnits hostEnv)
   \<and> MatchAhead (GetSupportedUnits hostEnv ! nat 1) (\<lambda>c. \<not> isalnum c)
        \<lparr>m_str = ''3mm+1'', m_pos = 1\<rparr>"
proof -
  have e: "resolveUnits hostEnv \<lparr>m_str = ''3mm+1'', m_pos = 1\<rparr>
             = (1, \<lparr>m_str = ''3mm+1'', m_pos = 3\<rparr>)"
    by code_simp
  have pos: "(0::int) \<le> 1"
    by simp
  note t = resolveUnits_first_match[where E = hostEnv
             and tk = "\<lparr>m_str = ''3mm+1'', m_pos = 1\<rparr>" and u = "[]" and v = "[]",
             unfolded e prod.case]
  note hit = t[THEN conjunct1, THEN conjunct1, THEN mp, OF pos]
  from e pos hit[THEN conjunct1] hit[THEN conjunct2, THEN conjunct1]
  show ?thesis by (intro conjI)
qed

subsection \<open>Errors of the code generator\<close>

lemma generateUCode_returns_true:
  "generateUCode E c aCode pctx = Some (Inr (ok, c', code, pctx')) \<Longrightarrow> ok"
  by (auto simp: generateUCode_def Let_def split: option.splits sum.splits)

text \<open>
  C3 fails on the code: \<^verbatim>\<open>generateUCode\<close> goes on after \<^verbatim>\<open>reportError\<close> and has no
  \<^verbatim>\<open>return false\<close>. Compiling \<open>B.Width+1\<close>, where the resolver has no item \<open>B\<close>, reports
  the CodeGen error and then emits the whole program; \<^verbatim>\<open>Compile\<close> returns \<^verbatim>\<open>true\<close>, and the
  program, run, dereferences the null variable reference.
\<close>

theorem codegen_error_not_fatal:
  "(case Compile hostEnv
           (fixedParser
              (newNode TR_OP_ADD None 0 9 (Some (fieldTree ''B'' ''Width''))
                 (Some (newNode TR_NUMBER (Some ''1'') 0 9 None None))))
           ''B.Width+1'' (newCompiler ()) [] newContext of
      Some (Inr (ok, c, code, p)) \<Rightarrow>
        ok
        \<and> pendingError (m_errorStatus c) \<and> stage (m_errorStatus c) = CST_CODEGEN
        \<and> code = [UOP_ref TR_UOP_PUSH_VAR None,
                   UOP_value TR_UOP_PUSH_VALUE (Numeric 1),
                   UOP_ref TR_OP_ADD None]
        \<and> Run hostEnv code newContext = Inl NullDeref
    | _ \<Rightarrow> False)"
  by code_simp

text \<open>
  C5 fails on the code in what \<^verbatim>\<open>Compile\<close> returns (the defect of C3): for \<open>B.Width\<close>
  (no item \<open>B\<close>) and for \<open>A.Xyz\<close> (no property \<open>Xyz\<close>) the error slot holds the CodeGen
  stage and the offset of the item (0) or of the property (2), as specified, but
  \<^verbatim>\<open>Compile\<close> returns \<^verbatim>\<open>true\<close> and has emitted the push-variable instruction.
\<close>

theorem field_error_not_fatal:
  "(case Compile hostEnv (fixedParser (fieldTree ''B'' ''Width'')) ''B.Width''
           (newCompiler ()) [] newContext of
      Some (Inr (ok, c, code, p)) \<Rightarrow>
        ok \<and> code = [UOP_ref TR_UOP_PUSH_VAR None]
        \<and> pendingError (m_errorStatus c) \<and> stage (m_errorStatus c) = CST_CODEGEN
        \<and> errPos (m_errorStatus c) = 0
    | _ \<Rightarrow> False)
   \<and> (case Compile hostEnv (fixedParser (fieldTree ''A'' ''Xyz'')) ''A.Xyz''
           (newCompiler ()) [] newContext of
      Some (Inr (ok, c, code, p)) \<Rightarrow>
        ok \<and> code = [UOP_ref TR_UOP_PUSH_VAR (Some (''A'', ''Xyz''))]
        \<and> pendingError (m_errorStatus c) \<and> stage (m_errorStatus c) = CST_CODEGEN
        \<and> errPos (m_errorStatus c) = 2
    | _ \<Rightarrow> False)"
  by code_simp

subsection \<open>The error slot across compilations\<close>

lemma reportError_pending: "pendingError (reportError sourcePos aStage aErrorMsg aPos es)"
  by (simp add: reportError_def)

lemma lexOperator_keeps_error:
  "pendingError (m_errorStatus c) \<Longrightarrow>
   pendingError (m_errorStatus (snd (snd (lexOperator ch tk c))))"
  by (simp add: lexOperator_def reportError_pending split: option.split)

lemma lexDefault_keeps_error:
  "pendingError (m_errorStatus c) \<Longrightarrow>
   pendingError (m_errorStatus (snd (snd (lexDefault E c))))"
  by (simp add: lexDefault_def Let_def lexOperator_keeps_error split: prod.split)

lemma lexString_keeps_error:
  "pendingError (m_errorStatus c) \<Longrightarrow>
   pendingError (m_errorStatus (snd (snd (lexString c))))"
  by (simp add: lexString_def Let_def)

lemma getToken_keeps_error:
  "pendingError (m_errorStatus c) \<Longrightarrow> pendingError (m_errorStatus (snd (getToken E c)))"
proof (induction E c rule: getToken.induct)
  case (1 E c)
  show ?case
  proof (cases "m_lexerState c")
    case LS_DEFAULT
    obtain fin rv c' where l: "lexDefault E c = (fin, rv, c')"
      by (cases "lexDefault E c")
    have p: "pendingError (m_errorStatus c')"
      using lexDefault_keeps_error[OF "1.prems", of E] l by simp
    show ?thesis
    proof (cases fin)
      case True
      with LS_DEFAULT l p show ?thesis by (simp add: getToken.simps[of E c])
    next
      case False
      with "1.IH"(1)[OF LS_DEFAULT l[symmetric] refl] l p LS_DEFAULT
      show ?thesis by (simp add: getToken.simps[of E c])
    qed
  next
    case LS_STRING
    then show ?thesis
      using lexString_keeps_error[OF "1.prems"]
      by (simp add: getToken.simps[of E c] lexString_def Let_def)
  qed
qed

lemma parserCall_keeps_error:
  "pendingError (m_errorStatus c) \<Longrightarrow> pendingError (m_errorStatus (parserCall x c))"
  by (cases x) (simp_all add: reportError_pending)

lemma fold_parserCall_keeps_error:
  "pendingError (m_errorStatus c) \<Longrightarrow> pendingError (m_errorStatus (fold parserCall xs c))"
  by (induction xs arbitrary: c) (simp_all add: parserCall_keeps_error)

lemma Parse_keeps_error:
  "pendingError (m_errorStatus c) \<Longrightarrow> pendingError (m_errorStatus (Parse P t tok c))"
  by (simp add: Parse_def fold_parserCall_keeps_error split: prod.split)

lemma tokenLoop_pending:
  assumes "pendingError (m_errorStatus c)"
  shows "\<exists>c'. tokenLoop E P c = Some (False, c') \<and> pendingError (m_errorStatus c')"
proof -
  let ?c0 = "c\<lparr>m_sourcePos := int (m_pos (m_tokenizer c))\<rparr>"
  obtain tok c1 where g: "getToken E ?c0 = (tok, c1)"
    by (cases "getToken E ?c0")
  have "pendingError (m_errorStatus ?c0)"
    using assms by simp
  from getToken_keeps_error[OF this, of E] g have "pendingError (m_errorStatus c1)"
    by simp
  then have "pendingError (m_errorStatus (Parse P (token tok) tok c1))"
    by (rule Parse_keeps_error)
  with g show ?thesis
    by (subst tokenLoop.simps) (simp add: Let_def)
qed

text \<open>
  C9 fails on the code: nothing in \<^verbatim>\<open>Compile\<close>, \<^verbatim>\<open>newString\<close> or \<^verbatim>\<open>Clear\<close> resets the
  pending-error flag, which only the constructor sets to false. A compiler whose flag is
  set starts its next \<^verbatim>\<open>Compile\<close> with the flag still set, and, whatever the (non-empty)
  expression and the parser, returns \<^verbatim>\<open>false\<close> after the first token with no program.
\<close>

theorem Compile_error_not_cleared:
  "pendingError (m_errorStatus c) \<Longrightarrow> aString \<noteq> [] \<Longrightarrow>
   pendingError (m_errorStatus (newString aString c))
   \<and> (\<exists>c'. Compile E P aString c aCode aPreflightContext
              = Some (Inr (False, c', aCode, aPreflightContext))
            \<and> pendingError (m_errorStatus c'))"
proof -
  assume p: "pendingError (m_errorStatus c)" and ne: "aString \<noteq> []"
  let ?c1 = "(newString aString c)\<lparr>m_tree := None, m_parseFinished := False\<rparr>"
  have p1: "pendingError (m_errorStatus ?c1)"
    using p by (simp add: newString_def Clear_def)
  from tokenLoop_pending[OF p1, of E P] obtain c' where
    "tokenLoop E P ?c1 = Some (False, c')" "pendingError (m_errorStatus c')"
    by blast
  with ne p show ?thesis
    by (simp add: Compile_def Let_def newString_def Clear_def)
qed

text \<open>
  The same compiler compiles \<open>1\<close> when fresh; after the failed compilation of \<open>$\<close> it
  does not.
\<close>

theorem Compile_error_not_cleared_witness:
  "(case Compile hostEnv (fixedParser (newNode TR_NUMBER (Some ''1'') 0 1 None None)) ''1''
           (newCompiler ()) [] newContext of
      Some (Inr (ok, c, code, p)) \<Rightarrow>
        ok \<and> code = [UOP_value TR_UOP_PUSH_VALUE (Numeric 1)]
    | _ \<Rightarrow> False)
   \<and> (case Compile hostEnv (fixedParser (newNode TR_NUMBER (Some ''1'') 0 1 None None)) ''$''
           (newCompiler ()) [] newContext of
      Some (Inr (ok, c, code, p)) \<Rightarrow>
        \<not> ok \<and> pendingError (m_errorStatus c) \<and> ''1'' \<noteq> []
        \<and> (\<exists>c'. Compile hostEnv (fixedParser (newNode TR_NUMBER (Some ''1'') 0 1 None None))
                   ''1'' c [] newContext
                 = Some (Inr (False, c', [], newContext)))
    | _ \<Rightarrow> False)"
proof -
  let ?P = "fixedParser (newNode TR_NUMBER (Some ''1'') 0 1 None None)
              :: (unit, real, string \<times> string, string) parser"
  have fresh: "(case Compile hostEnv ?P ''1'' (newCompiler ()) [] newContext of
                  Some (Inr (ok, c, code, p)) \<Rightarrow>
                    ok \<and> code = [UOP_value TR_UOP_PUSH_VALUE (Numeric 1)]
                | _ \<Rightarrow> False)"
    by code_simp
  have bad: "(case Compile hostEnv ?P ''$'' (newCompiler ()) [] newContext of
                Some (Inr (ok, c, code, p)) \<Rightarrow> \<not> ok \<and> pendingError (m_errorStatus c)
              | _ \<Rightarrow> False)"
    by code_simp
  from bad obtain ok c code p where
    r: "Compile hostEnv ?P ''$'' (newCompiler ()) [] newContext = Some (Inr (ok, c, code, p))"
    and nok: "\<not> ok" and pend: "pendingError (m_errorStatus c)"
    by (auto split: option.splits sum.splits)
  have ne: "''1'' \<noteq> []"
    by simp
  from Compile_error_not_cleared[OF pend ne, of hostEnv ?P "[]" newContext]
  have again: "\<exists>c'. Compile hostEnv ?P ''1'' c [] newContext
                     = Some (Inr (False, c', [], newContext))"
    by blast
  from fresh show ?thesis
    by (simp only: r option.case sum.case prod.case nok pend ne again simp_thms)
qed

subsection \<open>Pointers into the tree\<close>

lemma deref_append:
  "deref (p @ q) T = (case deref p T of None \<Rightarrow> None | Some n \<Rightarrow> deref q n)"
  by (induction p T rule: deref.induct) (auto split: option.splits)

lemma assign_append:
  "deref p T = Some n \<Longrightarrow> assign (p @ q) x T = assign p (assign q x n) T"
  by (induction p T rule: deref.induct) (auto split: option.splits)

lemma deref_assign:
  "deref p T = Some n \<Longrightarrow> deref p (assign p n' T) = Some n'"
  by (induction p T rule: deref.induct) (auto simp: setLeaf0_def setLeaf1_def split: option.splits)

lemma assign_assign:
  "deref p T = Some n \<Longrightarrow> assign p n'' (assign p n' T) = assign p n'' T"
  by (induction p T rule: deref.induct) (auto simp: setLeaf0_def setLeaf1_def split: option.splits)

subsection \<open>Single turns of the generator's loop\<close>

lemma genLoop_turn:
  assumes "deref p T = Some node"
    and "visitNode E sp node es pctx = Inr (node1, replaced, es', pctx')"
    and "afterSwitch p node1
           (if replaced then (p @ [Leaf1, Leaf1]) # (p @ [Leaf1]) # ps else p # ps) code
         = (node2, stk, code')"
  shows "genLoop E sp \<lparr>g_tree = T, g_stack = p # ps, g_code = code, g_error = es,
                        g_preflight = pctx\<rparr>
         = genLoop E sp \<lparr>g_tree = assign p node2 T, g_stack = stk, g_code = code',
                          g_error = es', g_preflight = pctx'\<rparr>"
  using assms by (subst genLoop.simps) (simp add: genBody_def)

lemma genLoop_done:
  "genLoop E sp \<lparr>g_tree = T, g_stack = [], g_code = code, g_error = es, g_preflight = pctx\<rparr>
   = Some (Inr \<lparr>g_tree = T, g_stack = [], g_code = code, g_error = es, g_preflight = pctx\<rparr>)"
  by (subst genLoop.simps) simp

lemma afterSwitch_terminal:
  "isTerminal (flds node) \<Longrightarrow> uop (flds node) = Some u \<Longrightarrow>
   afterSwitch p node (q # ps) code
     = (setFields (\<lambda>g. g\<lparr>uop := None\<rparr>) (markVisited node), ps, code @ [u])"
  by (simp add: afterSwitch_def)

lemma afterSwitch_push0:
  "\<not> isTerminal (flds node) \<Longrightarrow> leaf0 node = Some a \<Longrightarrow> \<not> isVisited (flds a) \<Longrightarrow>
   afterSwitch p node stk code
     = (setLeaf0 (Some (markVisited a)) node, (p @ [Leaf0]) # stk, code)"
  by (simp add: afterSwitch_def)

lemma afterSwitch_push1:
  "\<not> isTerminal (flds node) \<Longrightarrow> leaf0 node = Some a \<Longrightarrow> isVisited (flds a) \<Longrightarrow>
   leaf1 node = Some b \<Longrightarrow> \<not> isVisited (flds b) \<Longrightarrow>
   afterSwitch p node stk code
     = (setLeaf1 (Some (markVisited b)) node, (p @ [Leaf1]) # stk, code)"
  by (simp add: afterSwitch_def)

lemma afterSwitch_stay:
  "\<not> isTerminal (flds node) \<Longrightarrow> leaf0 node = Some a \<Longrightarrow> isVisited (flds a) \<Longrightarrow>
   leaf1 node = Some b \<Longrightarrow> isVisited (flds b) \<Longrightarrow>
   afterSwitch p node stk code = (node, stk, code)"
  by (simp add: afterSwitch_def)

lemma visitNode_operator:
  "TR_OP_BINARY_MASK (op (flds node)) \<or> TR_OP_UNARY_MASK (op (flds node)) \<Longrightarrow>
   visitNode E sp node es pctx
     = Inr (setTerminal
              ((case leaf0 node of None \<Rightarrow> True | Some a \<Rightarrow> isVisited (flds a))
               \<and> (case leaf1 node of None \<Rightarrow> True | Some b \<Rightarrow> isVisited (flds b)))
              (SetUop (UOP_ref (op (flds node)) None) node),
            False, es, pctx)"
  by (auto simp: visitNode_def TR_OP_BINARY_MASK_def TR_OP_UNARY_MASK_def)

lemma visitNode_call:
  "op (flds node) = TR_OP_FUNC_CALL \<Longrightarrow> uop (flds node) = Some u \<Longrightarrow>
   visitNode E sp node es pctx = Inr (setTerminal True node, False, es, pctx)"
  by (simp add: visitNode_def)

subsection \<open>Programs that push one value\<close>

lemma pushesOne_value: "m_op u = TR_UOP_PUSH_VALUE \<Longrightarrow> pushesOne E [u]"
  by (simp add: pushesOne_def Exec_def Push_def)

lemma pushesOne_var: "m_op u = TR_UOP_PUSH_VAR \<Longrightarrow> m_ref u = Some r \<Longrightarrow> pushesOne E [u]"
  by (simp add: pushesOne_def Exec_def ExecOperator_def TR_OP_BINARY_MASK_def
        TR_OP_UNARY_MASK_def Push_def)

lemma pushesOne_method:
  assumes hc: "hostContract E" and pa: "pushesOne E pa"
    and u: "m_op u = TR_OP_METHOD_CALL" "m_func u = Some f"
  shows "pushesOne E (pa @ [u])"
  unfolding pushesOne_def
proof
  fix ctx
  from pa obtain v c1 where r1: "runOps E pa ctx = Inr c1" and s1: "m_stack c1 = v # m_stack ctx"
    unfolding pushesOne_def by blast
  from hc s1 obtain c2 res where
    "callFunc E f c1 (m_ref u) = Returned c2" "m_stack c2 = res # m_stack ctx"
    unfolding hostContract_def by blast
  with r1 u show "\<exists>v ctx'. runOps E (pa @ [u]) ctx = Inr ctx' \<and> m_stack ctx' = v # m_stack ctx"
    by (simp add: runOps_append Exec_def)
qed

lemma pushesOne_binary:
  assumes pa: "pushesOne E pa" and pb: "pushesOne E pb" and u: "TR_OP_BINARY_MASK (m_op u)"
  shows "pushesOne E (pa @ pb @ [u])"
  unfolding pushesOne_def
proof
  fix ctx
  from pa obtain v1 c1 where r1: "runOps E pa ctx = Inr c1" and s1: "m_stack c1 = v1 # m_stack ctx"
    unfolding pushesOne_def by blast
  from pb obtain v2 c2 where r2: "runOps E pb c1 = Inr c2" and s2: "m_stack c2 = v2 # m_stack c1"
    unfolding pushesOne_def by blast
  have c2: "c2 = c2\<lparr>m_stack := v2 # v1 # m_stack ctx\<rparr>"
    using s1 s2 by simp
  have "Exec E u c2
          = Inr (c2\<lparr>m_stack := Some (Numeric (binaryResult (dbl E) (m_op u) v1 v2)) # m_stack ctx\<rparr>)"
    by (subst c2) (simp only: Exec_binary_result[OF u])
  with r1 r2 show "\<exists>v ctx'. runOps E (pa @ pb @ [u]) ctx = Inr ctx' \<and> m_stack ctx' = v # m_stack ctx"
    by (simp add: runOps_append)
qed

lemma pushesOne_unary:
  assumes pa: "pushesOne E pa" and u: "TR_OP_UNARY_MASK (m_op u)"
  shows "pushesOne E (pa @ [u])"
  unfolding pushesOne_def
proof
  fix ctx
  from pa obtain v c1 where r1: "runOps E pa ctx = Inr c1" and s1: "m_stack c1 = v # m_stack ctx"
    unfolding pushesOne_def by blast
  have "Exec E u c1 = Inr c1"
    using u by (simp add: Exec_def ExecOperator_def TR_OP_UNARY_MASK_def TR_OP_BINARY_MASK_def)
  with r1 s1 show "\<exists>v ctx'. runOps E (pa @ [u]) ctx = Inr ctx' \<and> m_stack ctx' = v # m_stack ctx"
    by (simp add: runOps_append)
qed

subsection \<open>Flags do not change the shape\<close>

lemma markVisited_simps [simp]:
  "flds (markVisited t) = (flds t)\<lparr>isVisited := True\<rparr>"
  "leaf0 (markVisited t) = leaf0 t"
  "leaf1 (markVisited t) = leaf1 t"
  by (simp_all add: markVisited_def setFields_def)

lemma wellFormed_markVisited [simp]: "wellFormed (markVisited t) = wellFormed t"
  by (cases t) (simp add: markVisited_def setFields_def split: opcode.splits)

lemma belowUnvisited_markVisited [simp]: "belowUnvisited (markVisited t) = belowUnvisited t"
  by (simp add: belowUnvisited_def)

lemma nodes_markVisited [simp]: "nodes (markVisited t) = nodes t"
  by (cases t) (simp add: markVisited_def setFields_def)

lemma allUnvisited_below: "allUnvisited t \<Longrightarrow> belowUnvisited t \<and> \<not> isVisited (flds t)"
  by (cases t) (simp add: belowUnvisited_def)

subsection \<open>What the switch does on the trees of the grammar\<close>

lemma visitNode_leaf:
  assumes "wellFormed t" and "op (flds t) \<in> {TR_NUMBER, TR_STRING, TR_IDENTIFIER}"
  shows "\<exists>node1 es' u.
           visitNode E sp t es pctx = Inr (node1, False, es', pctx)
           \<and> isTerminal (flds node1) \<and> uop (flds node1) = Some u
           \<and> m_op u = TR_UOP_PUSH_VALUE
           \<and> (pendingError es \<longrightarrow> pendingError es')"
proof (cases t)
  case (TREE_NODE g l0 l1)
  with assms show ?thesis
    by (auto simp: visitNode_def setTerminal_def SetUop_def setFields_def setLeaf0_def
          UOP_value_def UOP_ref_def reportError_def Let_def
        split: option.splits)
qed

lemma visitNode_field:
  assumes "wellFormed t" and "op (flds t) = TR_STRUCT_REF"
    and "leaf1 t = Some b" and "op (flds b) = TR_IDENTIFIER"
  shows "\<exists>node1 es' u.
           visitNode E sp t es pctx = Inr (node1, False, es', pctx)
           \<and> isTerminal (flds node1) \<and> uop (flds node1) = Some u
           \<and> m_op u = TR_UOP_PUSH_VAR
           \<and> (pendingError es \<longrightarrow> pendingError es')
           \<and> (\<not> pendingError es' \<longrightarrow> m_ref u \<noteq> None)"
proof (cases t)
  case (TREE_NODE g l0 l1)
  with assms show ?thesis
    by (cases b)
       (auto simp: visitNode_def visitField_def setTerminal_def SetUop_def setFields_def
          setLeaf0_def setLeaf1_def isName_def UOP_ref_def reportError_def Let_def
        split: option.splits)
qed

lemma preflightCall_contract:
  assumes "hostContract E"
  shows "\<exists>pctx'. preflightCall E f vref paramStr pctx = Inr pctx'"
proof -
  have "m_stack (Push (Some (Text paramStr)) pctx) = Some (Text paramStr) # m_stack pctx"
    by (simp add: Push_def)
  with assms obtain ctx' res where
    "callFunc E f (Push (Some (Text paramStr)) pctx) vref = Returned ctx'"
    "m_stack ctx' = res # m_stack pctx"
    unfolding hostContract_def by blast
  then show ?thesis
    by (simp add: preflightCall_def Pop_def)
qed

lemma visitMethod_contract:
  assumes hc: "hostContract E"
    and a: "value_str (flds a) = Some itemName"
    and fn: "leaf0 b = Some fname" "value_str (flds fname) = Some functionName"
    and pa: "leaf1 b = Some param"
  shows "\<exists>es' pctx'.
           visitMethod E sp t a b es pctx
             = Inr (setTerminal False
                      (setLeaf1
                         (Some (SetUop (UOP_func TR_OP_METHOD_CALL (CreateFuncCall E functionName)
                                          (CreateVarRef E itemName []))
                                  (setLeaf1 (Some (markVisited param))
                                     (setLeaf0 (Some (markVisited fname)) (markVisited b)))))
                         (setLeaf0 (Some (markVisited a)) t)),
                    es', pctx')
           \<and> (pendingError es \<longrightarrow> pendingError es')
           \<and> (\<not> pendingError es' \<longrightarrow> CreateFuncCall E functionName \<noteq> None)"
proof (cases "CreateFuncCall E functionName")
  case None
  with a fn pa show ?thesis
    by (simp add: visitMethod_def Let_def reportError_def)
next
  case (Some f)
  let ?paramStr = "case value_str (flds t) of Some s \<Rightarrow> s | None \<Rightarrow> []"
  from preflightCall_contract[OF hc, of f "CreateVarRef E itemName []" ?paramStr pctx]
  obtain pctx' where
    pf: "preflightCall E f (CreateVarRef E itemName []) ?paramStr pctx = Inr pctx'"
    by blast
  with Some a fn pa show ?thesis
    by (simp add: visitMethod_def Let_def reportError_def)
qed

subsection \<open>The loop on a subtree\<close>

lemma gen_terminal:
  assumes "deref p T = Some t"
    and "visitNode E sp t es pctx = Inr (node1, False, es', pctx')"
    and "isTerminal (flds node1)" and "uop (flds node1) = Some u"
  shows "genLoop E sp (genState T (p # ps) code es pctx)
         = genLoop E sp
             (genState (assign p (setFields (\<lambda>g. g\<lparr>uop := None\<rparr>) (markVisited node1)) T)
                ps (code @ [u]) es' pctx')"
proof -
  have "afterSwitch p node1 (if False then (p @ [Leaf1, Leaf1]) # (p @ [Leaf1]) # ps else p # ps)
          code
        = (setFields (\<lambda>g. g\<lparr>uop := None\<rparr>) (markVisited node1), ps, code @ [u])"
    using afterSwitch_terminal[OF assms(3,4)] by simp
  from genLoop_turn[OF assms(1,2) this] show ?thesis .
qed

text \<open>
  With the pointer to a well-formed subtree on top of the work stack, none of whose nodes
  below the root is marked visited, the loop comes to the stack below that pointer. By then
  it has changed the tree only at the subtree, has appended a program to the code, and has
  kept a pending error pending; if no error is pending then, the program appended pushes
  one value.
\<close>

lemma gen_subtree:
  assumes hc: "hostContract E"
  shows "wellFormed t \<Longrightarrow> belowUnvisited t \<Longrightarrow> deref p T = Some t \<Longrightarrow>
    \<exists>t' es' pctx' prog.
      genLoop E sp (genState T (p # ps) code es pctx)
        = genLoop E sp (genState (assign p t' T) ps (code @ prog) es' pctx')
      \<and> (isVisited (flds t) \<longrightarrow> isVisited (flds t'))
      \<and> (pendingError es \<longrightarrow> pendingError es')
      \<and> (\<not> pendingError es' \<longrightarrow> pushesOne E prog)"
proof (induction "nodes t" arbitrary: t T p ps code es pctx rule: less_induct)
  case less
  note wf = less.prems(1) and bu = less.prems(2) and dp = less.prems(3)
  obtain g l0 l1 where t: "t = TREE_NODE g l0 l1"
    by (cases t)
  consider
      (leaf) "op g \<in> {TR_NUMBER, TR_STRING, TR_IDENTIFIER}"
    | (field) a b where "op g = TR_STRUCT_REF" "l0 = Some a" "l1 = Some b"
        "op (flds b) = TR_IDENTIFIER"
    | (mcall) a b fname param where "op g = TR_STRUCT_REF" "l0 = Some a" "l1 = Some b"
        "op (flds b) = TR_OP_FUNC_CALL" "leaf0 b = Some fname" "leaf1 b = Some param"
    | (binary) a b where "TR_OP_BINARY_MASK (op g)" "l0 = Some a" "l1 = Some b"
    | (unary) a where "TR_OP_UNARY_MASK (op g)" "l0 = Some a" "l1 = None"
    using wf unfolding t
    by (cases "op g")
       (auto simp: TR_OP_BINARY_MASK_def TR_OP_UNARY_MASK_def
             split: option.splits TREE_NODE.splits if_splits)
  then show ?case
  proof cases
    case leaf
    from visitNode_leaf[OF wf, of E sp es pctx] leaf t
    obtain node1 es' u where
      v: "visitNode E sp t es pctx = Inr (node1, False, es', pctx)"
      and n1: "isTerminal (flds node1)" "uop (flds node1) = Some u"
      and u: "m_op u = TR_UOP_PUSH_VALUE"
      and mono: "pendingError es \<longrightarrow> pendingError es'"
      by auto
    let ?t' = "setFields (\<lambda>g. g\<lparr>uop := None\<rparr>) (markVisited node1)"
    have "genLoop E sp (genState T (p # ps) code es pctx)
            = genLoop E sp (genState (assign p ?t' T) ps (code @ [u]) es' pctx)"
      by (rule gen_terminal[OF dp v n1])
    moreover have "isVisited (flds ?t')"
      by (simp add: setFields_def)
    moreover have "pushesOne E [u]"
      by (rule pushesOne_value[OF u])
    ultimately show ?thesis
      using mono by blast
  next
    case (field a b)
    from visitNode_field[OF wf, of b E sp es pctx] field t
    obtain node1 es' u where
      v: "visitNode E sp t es pctx = Inr (node1, False, es', pctx)"
      and n1: "isTerminal (flds node1)" "uop (flds node1) = Some u"
      and u: "m_op u = TR_UOP_PUSH_VAR"
      and mono: "pendingError es \<longrightarrow> pendingError es'"
      and res: "\<not> pendingError es' \<longrightarrow> m_ref u \<noteq> None"
      by auto
    let ?t' = "setFields (\<lambda>g. g\<lparr>uop := None\<rparr>) (markVisited node1)"
    have "genLoop E sp (genState T (p # ps) code es pctx)
            = genLoop E sp (genState (assign p ?t' T) ps (code @ [u]) es' pctx)"
      by (rule gen_terminal[OF dp v n1])
    moreover have "isVisited (flds ?t')"
      by (simp add: setFields_def)
    moreover have "\<not> pendingError es' \<longrightarrow> pushesOne E [u]"
      using res pushesOne_var[OF u] by auto
    ultimately show ?thesis
      using mono by blast
  next
    case (mcall a b fname param)
    from wf mcall t obtain itemName functionName where
      names: "value_str (flds a) = Some itemName" "value_str (flds fname) = Some functionName"
      and ida: "op (flds a) = TR_IDENTIFIER"
      and wfp: "wellFormed param"
      by (cases b) (auto simp: isName_def)
    from bu mcall t have bup: "belowUnvisited param"
      by (cases b) (auto simp: belowUnvisited_def dest: allUnvisited_below)
    let ?u = "UOP_func TR_OP_METHOD_CALL (CreateFuncCall E functionName)
                (CreateVarRef E itemName []) :: ('a, 'b, 'c) UOP"
    let ?b1 = "SetUop ?u (setLeaf1 (Some (markVisited param))
                            (setLeaf0 (Some (markVisited fname)) (markVisited b)))"
    let ?n1 = "setTerminal False (setLeaf1 (Some ?b1) (setLeaf0 (Some (markVisited a)) t))"
    from visitMethod_contract[OF hc names(1) mcall(5) names(2) mcall(6), of sp t es pctx]
    obtain es1 pctx1 where
      vm: "visitMethod E sp t a b es pctx = Inr (?n1, es1, pctx1)"
      and mono1: "pendingError es \<longrightarrow> pendingError es1"
      and res: "\<not> pendingError es1 \<longrightarrow> CreateFuncCall E functionName \<noteq> None"
      by blast
    have v: "visitNode E sp t es pctx = Inr (?n1, True, es1, pctx1)"
      using vm mcall t ida by (simp add: visitNode_def)
    have turn1: "genLoop E sp (genState T (p # ps) code es pctx)
                  = genLoop E sp (genState (assign p ?n1 T)
                                    ((p @ [Leaf1, Leaf1]) # (p @ [Leaf1]) # ps) code es1 pctx1)"
      by (rule genLoop_turn[OF dp v])
         (simp add: afterSwitch_def setTerminal_def setFields_def setLeaf0_def setLeaf1_def
            SetUop_def)
    let ?T1 = "assign p ?n1 T"
    have d1: "deref p ?T1 = Some ?n1"
      by (rule deref_assign[OF dp])
    have dparam: "deref (p @ [Leaf1, Leaf1]) ?T1 = Some (markVisited param)"
      by (subst deref_append, subst d1)
         (simp add: setTerminal_def setFields_def setLeaf0_def setLeaf1_def SetUop_def)
    have "nodes (markVisited param) < nodes t"
      using mcall t by (cases b) simp
    from less.hyps[OF this _ _ dparam, of "(p @ [Leaf1]) # ps" code es1 pctx1] wfp bup
    obtain param' es2 pctx2 prog where
      sub: "genLoop E sp (genState ?T1 ((p @ [Leaf1, Leaf1]) # (p @ [Leaf1]) # ps) code es1 pctx1)
            = genLoop E sp (genState (assign (p @ [Leaf1, Leaf1]) param' ?T1)
                              ((p @ [Leaf1]) # ps) (code @ prog) es2 pctx2)"
      and mono2: "pendingError es1 \<longrightarrow> pendingError es2"
      and push: "\<not> pendingError es2 \<longrightarrow> pushesOne E prog"
      by auto
    let ?b2 = "setLeaf1 (Some param') ?b1"
    let ?n2 = "setLeaf1 (Some ?b2) ?n1"
    have T2: "assign (p @ [Leaf1, Leaf1]) param' ?T1 = assign p ?n2 T"
      by (subst assign_append[OF d1], subst assign_assign[OF dp])
         (simp add: setTerminal_def setFields_def setLeaf0_def setLeaf1_def SetUop_def)
    have d2: "deref p (assign p ?n2 T) = Some ?n2"
      by (rule deref_assign[OF dp])
    have db: "deref (p @ [Leaf1]) (assign p ?n2 T) = Some ?b2"
      by (subst deref_append, subst d2)
         (simp add: setTerminal_def setFields_def setLeaf0_def setLeaf1_def)
    have vb: "visitNode E sp ?b2 es2 pctx2 = Inr (setTerminal True ?b2, False, es2, pctx2)"
      by (rule visitNode_call[where u = ?u])
         (simp_all add: mcall setFields_def setLeaf0_def setLeaf1_def SetUop_def)
    let ?b3 = "setFields (\<lambda>g. g\<lparr>uop := None\<rparr>) (markVisited (setTerminal True ?b2))"
    have turn2: "genLoop E sp (genState (assign p ?n2 T) ((p @ [Leaf1]) # ps) (code @ prog)
                                es2 pctx2)
                 = genLoop E sp (genState (assign (p @ [Leaf1]) ?b3 (assign p ?n2 T)) ps
                                   ((code @ prog) @ [?u]) es2 pctx2)"
      by (rule gen_terminal[OF db vb])
         (simp_all add: setTerminal_def setFields_def setLeaf0_def setLeaf1_def SetUop_def)
    let ?n3 = "setLeaf1 (Some ?b3) ?n2"
    have T3: "assign (p @ [Leaf1]) ?b3 (assign p ?n2 T) = assign p ?n3 T"
      by (subst assign_append[OF d2], subst assign_assign[OF dp])
         (simp add: setTerminal_def setFields_def setLeaf0_def setLeaf1_def SetUop_def)
    have loop: "genLoop E sp (genState T (p # ps) code es pctx)
                = genLoop E sp (genState (assign p ?n3 T) ps (code @ (prog @ [?u])) es2 pctx2)"
      using turn1 sub turn2 by (simp add: T2 T3)
    have vis: "isVisited (flds t) \<longrightarrow> isVisited (flds ?n3)"
      by (simp add: setTerminal_def setFields_def setLeaf0_def setLeaf1_def)
    have "\<not> pendingError es2 \<longrightarrow> pushesOne E (prog @ [?u])"
    proof
      assume ne: "\<not> pendingError es2"
      with mono2 res obtain f where f: "CreateFuncCall E functionName = Some f"
        by auto
      from ne push have "pushesOne E prog"
        by simp
      then show "pushesOne E (prog @ [?u])"
        by (rule pushesOne_method[OF hc]) (simp_all add: UOP_func_def f)
    qed
    with loop vis mono1 mono2 show ?thesis
      by blast
  next
    case (binary a b)
    from wf bu binary t have
      wfa: "wellFormed a" and wfb: "wellFormed b"
      and ua: "\<not> isVisited (flds a)" "belowUnvisited a"
      and ub: "\<not> isVisited (flds b)" "belowUnvisited b"
      by (auto simp: TR_OP_BINARY_MASK_def belowUnvisited_def dest: allUnvisited_below)
    let ?u = "UOP_ref (op g) None :: ('a, 'b, 'c) UOP"
    have opm: "TR_OP_BINARY_MASK (op (flds t)) \<or> TR_OP_UNARY_MASK (op (flds t))"
      using binary t by simp
    \<comment> \<open>first turn: the left operand is pushed\<close>
    let ?n1 = "setLeaf0 (Some (markVisited a)) (setTerminal False (SetUop ?u t))"
    have turn1: "genLoop E sp (genState T (p # ps) code es pctx)
                 = genLoop E sp (genState (assign p ?n1 T) ((p @ [Leaf0]) # p # ps) code es pctx)"
      by (rule genLoop_turn[OF dp visitNode_operator[OF opm]])
         (simp add: t binary ua afterSwitch_def setTerminal_def SetUop_def setFields_def)
    have d1: "deref p (assign p ?n1 T) = Some ?n1"
      by (rule deref_assign[OF dp])
    have da: "deref (p @ [Leaf0]) (assign p ?n1 T) = Some (markVisited a)"
      by (subst deref_append, subst d1) (simp add: setLeaf0_def)
    have "nodes (markVisited a) < nodes t"
      using binary t by simp
    from less.hyps[OF this _ _ da, of "p # ps" code es pctx] wfa ua
    obtain a' es1 pctx1 prog1 where
      sub1: "genLoop E sp (genState (assign p ?n1 T) ((p @ [Leaf0]) # p # ps) code es pctx)
             = genLoop E sp (genState (assign (p @ [Leaf0]) a' (assign p ?n1 T)) (p # ps)
                               (code @ prog1) es1 pctx1)"
      and va: "isVisited (flds a')"
      and mono1: "pendingError es \<longrightarrow> pendingError es1"
      and push1: "\<not> pendingError es1 \<longrightarrow> pushesOne E prog1"
      by auto
    let ?n2 = "setLeaf0 (Some a') ?n1"
    have T2: "assign (p @ [Leaf0]) a' (assign p ?n1 T) = assign p ?n2 T"
      by (subst assign_append[OF d1], subst assign_assign[OF dp]) (simp add: setLeaf0_def)
    have d2: "deref p (assign p ?n2 T) = Some ?n2"
      by (rule deref_assign[OF dp])
    \<comment> \<open>second turn: the right operand is pushed\<close>
    have opm2: "TR_OP_BINARY_MASK (op (flds ?n2)) \<or> TR_OP_UNARY_MASK (op (flds ?n2))"
      using binary t by (simp add: setLeaf0_def setTerminal_def SetUop_def setFields_def)
    let ?n3 = "setLeaf1 (Some (markVisited b)) (setTerminal False (SetUop ?u ?n2))"
    have turn2: "genLoop E sp (genState (assign p ?n2 T) (p # ps) (code @ prog1) es1 pctx1)
                 = genLoop E sp (genState (assign p ?n3 (assign p ?n2 T))
                                   ((p @ [Leaf1]) # p # ps) (code @ prog1) es1 pctx1)"
      by (rule genLoop_turn[OF d2 visitNode_operator[OF opm2]])
         (simp add: t binary ub va afterSwitch_def setTerminal_def SetUop_def setFields_def
            setLeaf0_def)
    have T3: "assign p ?n3 (assign p ?n2 T) = assign p ?n3 T"
      by (rule assign_assign[OF dp])
    have d3: "deref p (assign p ?n3 T) = Some ?n3"
      by (rule deref_assign[OF dp])
    have db: "deref (p @ [Leaf1]) (assign p ?n3 T) = Some (markVisited b)"
      by (subst deref_append, subst d3) (simp add: setLeaf1_def)
    have "nodes (markVisited b) < nodes t"
      using binary t by simp
    from less.hyps[OF this _ _ db, of "p # ps" "code @ prog1" es1 pctx1] wfb ub
    obtain b' es2 pctx2 prog2 where
      sub2: "genLoop E sp (genState (assign p ?n3 T) ((p @ [Leaf1]) # p # ps) (code @ prog1)
                             es1 pctx1)
             = genLoop E sp (genState (assign (p @ [Leaf1]) b' (assign p ?n3 T)) (p # ps)
                               ((code @ prog1) @ prog2) es2 pctx2)"
      and vb: "isVisited (flds b')"
      and mono2: "pendingError es1 \<longrightarrow> pendingError es2"
      and push2: "\<not> pendingError es2 \<longrightarrow> pushesOne E prog2"
      by auto
    let ?n4 = "setLeaf1 (Some b') ?n3"
    have T4: "assign (p @ [Leaf1]) b' (assign p ?n3 T) = assign p ?n4 T"
      by (subst assign_append[OF d3], subst assign_assign[OF dp]) (simp add: setLeaf1_def)
    have d4: "deref p (assign p ?n4 T) = Some ?n4"
      by (rule deref_assign[OF dp])
    \<comment> \<open>third turn: the operator is emitted\<close>
    have opm4: "TR_OP_BINARY_MASK (op (flds ?n4)) \<or> TR_OP_UNARY_MASK (op (flds ?n4))"
      using binary t
      by (simp add: setLeaf0_def setLeaf1_def setTerminal_def SetUop_def setFields_def)
    let ?n5 = "setTerminal True (SetUop ?u ?n4)"
    have v4: "visitNode E sp ?n4 es2 pctx2 = Inr (?n5, False, es2, pctx2)"
      using visitNode_operator[OF opm4, of E sp es2 pctx2] va vb binary t
      by (simp add: setLeaf0_def setLeaf1_def setTerminal_def SetUop_def setFields_def)
    let ?t' = "setFields (\<lambda>g. g\<lparr>uop := None\<rparr>) (markVisited ?n5)"
    have turn3: "genLoop E sp (genState (assign p ?n4 T) (p # ps) ((code @ prog1) @ prog2)
                                es2 pctx2)
                 = genLoop E sp (genState (assign p ?t' (assign p ?n4 T)) ps
                                   (((code @ prog1) @ prog2) @ [?u]) es2 pctx2)"
      by (rule gen_terminal[OF d4 v4])
         (simp_all add: setTerminal_def SetUop_def setFields_def)
    have T5: "assign p ?t' (assign p ?n4 T) = assign p ?t' T"
      by (rule assign_assign[OF dp])
    have loop: "genLoop E sp (genState T (p # ps) code es pctx)
                = genLoop E sp (genState (assign p ?t' T) ps (code @ (prog1 @ prog2 @ [?u]))
                                  es2 pctx2)"
      using turn1 sub1 turn2 sub2 turn3 by (simp add: T2 T3 T4 T5)
    have vis: "isVisited (flds ?t')"
      by (simp add: setFields_def)
    have "\<not> pendingError es2 \<longrightarrow> pushesOne E (prog1 @ prog2 @ [?u])"
      using push1 push2 mono2 binary
      by (auto intro!: pushesOne_binary simp: UOP_ref_def)
    with loop vis mono1 mono2 show ?thesis
      by blast
  next
    case (unary a)
    from wf bu unary t have
      wfa: "wellFormed a" and ua: "\<not> isVisited (flds a)" "belowUnvisited a"
      by (auto simp: TR_OP_UNARY_MASK_def TR_OP_BINARY_MASK_def belowUnvisited_def
               dest: allUnvisited_below)
    let ?u = "UOP_ref (op g) None :: ('a, 'b, 'c) UOP"
    have opm: "TR_OP_BINARY_MASK (op (flds t)) \<or> TR_OP_UNARY_MASK (op (flds t))"
      using unary t by simp
    let ?n1 = "setLeaf0 (Some (markVisited a)) (setTerminal False (SetUop ?u t))"
    have turn1: "genLoop E sp (genState T (p # ps) code es pctx)
                 = genLoop E sp (genState (assign p ?n1 T) ((p @ [Leaf0]) # p # ps) code es pctx)"
      by (rule genLoop_turn[OF dp visitNode_operator[OF opm]])
         (simp add: t unary ua afterSwitch_def setTerminal_def SetUop_def setFields_def)
    have d1: "deref p (assign p ?n1 T) = Some ?n1"
      by (rule deref_assign[OF dp])
    have da: "deref (p @ [Leaf0]) (assign p ?n1 T) = Some (markVisited a)"
      by (subst deref_append, subst d1) (simp add: setLeaf0_def)
    have "nodes (markVisited a) < nodes t"
      using unary t by simp
    from less.hyps[OF this _ _ da, of "p # ps" code es pctx] wfa ua
    obtain a' es1 pctx1 prog1 where
      sub1: "genLoop E sp (genState (assign p ?n1 T) ((p @ [Leaf0]) # p # ps) code es pctx)
             = genLoop E sp (genState (assign (p @ [Leaf0]) a' (assign p ?n1 T)) (p # ps)
                               (code @ prog1) es1 pctx1)"
      and va: "isVisited (flds a')"
      and mono1: "pendingError es \<longrightarrow> pendingError es1"
      and push1: "\<not> pendingError es1 \<longrightarrow> pushesOne E prog1"
      by auto
    let ?n2 = "setLeaf0 (Some a') ?n1"
    have T2: "assign (p @ [Leaf0]) a' (assign p ?n1 T) = assign p ?n2 T"
      by (subst assign_append[OF d1], subst assign_assign[OF dp]) (simp add: setLeaf0_def)
    have d2: "deref p (assign p ?n2 T) = Some ?n2"
      by (rule deref_assign[OF dp])
    have opm2: "TR_OP_BINARY_MASK (op (flds ?n2)) \<or> TR_OP_UNARY_MASK (op (flds ?n2))"
      using unary t by (simp add: setLeaf0_def setTerminal_def SetUop_def setFields_def)
    let ?n5 = "setTerminal True (SetUop ?u ?n2)"
    have v2: "visitNode E sp ?n2 es1 pctx1 = Inr (?n5, False, es1, pctx1)"
      using visitNode_operator[OF opm2, of E sp es1 pctx1] va unary t
      by (simp add: setLeaf0_def setLeaf1_def setTerminal_def SetUop_def setFields_def)
    let ?t' = "setFields (\<lambda>g. g\<lparr>uop := None\<rparr>) (markVisited ?n5)"
    have turn2: "genLoop E sp (genState (assign p ?n2 T) (p # ps) (code @ prog1) es1 pctx1)
                 = genLoop E sp (genState (assign p ?t' (assign p ?n2 T)) ps
                                   ((code @ prog1) @ [?u]) es1 pctx1)"
      by (rule gen_terminal[OF d2 v2])
         (simp_all add: setTerminal_def SetUop_def setFields_def)
    have T5: "assign p ?t' (assign p ?n2 T) = assign p ?t' T"
      by (rule assign_assign[OF dp])
    have loop: "genLoop E sp (genState T (p # ps) code es pctx)
                = genLoop E sp (genState (assign p ?t' T) ps (code @ (prog1 @ [?u])) es1 pctx1)"
      using turn1 sub1 turn2 by (simp add: T2 T5)
    have vis: "isVisited (flds ?t')"
      by (simp add: setFields_def)
    have "\<not> pendingError es1 \<longrightarrow> pushesOne E (prog1 @ [?u])"
      using push1 unary
      by (auto intro!: pushesOne_unary simp: UOP_ref_def)
    with loop vis mono1 show ?thesis
      by blast
  qed
qed

subsection \<open>Preparing and dumping the trees of the grammar\<close>

lemma prepareTree_allUnvisited: "allUnvisited (prepareTree t)"
  by (induction t) (auto split: option.splits)

lemma prepareTree_flds [simp]: "flds (prepareTree t) = (flds t)\<lparr>isVisited := False\<rparr>"
  by (cases t) simp

lemma isName_prepareTree: "isName t \<Longrightarrow> isName (prepareTree t)"
  by (cases t) (auto simp: isName_def)

lemma prepareTree_wellFormed: "wellFormed t \<Longrightarrow> wellFormed (prepareTree t)"
proof (induction "nodes t" arbitrary: t rule: less_induct)
  case less
  obtain g l0 l1 where t: "t = TREE_NODE g l0 l1"
    by (cases t)
  show ?case
  proof (cases "op g = TR_STRUCT_REF")
    case True
    with less.prems t obtain a b where ab: "l0 = Some a" "l1 = Some b" "isName a"
      by (auto split: option.splits)
    obtain gb fname param where b: "b = TREE_NODE gb fname param"
      by (cases b)
    show ?thesis
    proof (cases "op gb = TR_IDENTIFIER")
      case True
      with less.prems t ab b \<open>op g = TR_STRUCT_REF\<close> show ?thesis
        using isName_prepareTree[of a] isName_prepareTree[of b] by auto
    next
      case False
      with less.prems t ab b \<open>op g = TR_STRUCT_REF\<close> obtain n x where
        nx: "fname = Some n" "param = Some x" "op gb = TR_OP_FUNC_CALL"
            "op (flds n) = TR_IDENTIFIER" "value_str (flds n) \<noteq> None" "wellFormed x"
        by (auto split: option.splits)
      have "nodes x < nodes t"
        using t ab b nx by simp
      from less.hyps[OF this nx(6)] have "wellFormed (prepareTree x)" .
      with t ab b nx \<open>op g = TR_STRUCT_REF\<close> show ?thesis
        using isName_prepareTree[of a] by auto
    qed
  next
    case False
    note nsr = this
    show ?thesis
    proof (cases "TR_OP_BINARY_MASK (op g) \<or> TR_OP_UNARY_MASK (op g)")
      case True
      have ih: "\<And>x. x \<in> set_option l0 \<union> set_option l1 \<Longrightarrow> wellFormed x
                  \<Longrightarrow> wellFormed (prepareTree x)"
        by (rule less.hyps) (auto simp: t split: option.splits)
      from True less.prems t ih show ?thesis
        by (cases "op g")
           (auto simp: TR_OP_BINARY_MASK_def TR_OP_UNARY_MASK_def split: option.splits)
    next
      case False
      show ?thesis
      proof (cases l0)
        case None
        with False nsr less.prems t show ?thesis
          by (cases "op g") (auto simp: TR_OP_BINARY_MASK_def TR_OP_UNARY_MASK_def)
      next
        case (Some son)
        obtain gs s0 s1 where "son = TREE_NODE gs s0 s1"
          by (cases son)
        with Some False nsr less.prems t show ?thesis
          by (cases "op g") (auto simp: TR_OP_BINARY_MASK_def TR_OP_UNARY_MASK_def)
      qed
    qed
  qed
qed

lemma dumpNode_name: "isName t \<Longrightarrow> dumpNode t = Inr ()"
  by (cases t) (auto simp: isName_def TR_OP_BINARY_MASK_def)

lemma dumpNode_wellFormed: "wellFormed t \<Longrightarrow> dumpNode t = Inr ()"
proof (induction "nodes t" arbitrary: t rule: less_induct)
  case less
  obtain g l0 l1 where t: "t = TREE_NODE g l0 l1"
    by (cases t)
  show ?case
  proof (cases "op g = TR_STRUCT_REF")
    case True
    with less.prems t obtain a b where ab: "l0 = Some a" "l1 = Some b" "isName a"
      by (auto split: option.splits)
    obtain gb fname param where b: "b = TREE_NODE gb fname param"
      by (cases b)
    show ?thesis
    proof (cases "op gb = TR_IDENTIFIER")
      case True
      with less.prems t ab b \<open>op g = TR_STRUCT_REF\<close> show ?thesis
        using dumpNode_name[of a] dumpNode_name[of b] by (auto simp: TR_OP_BINARY_MASK_def)
    next
      case False
      with less.prems t ab b \<open>op g = TR_STRUCT_REF\<close> obtain n x where
        nx: "fname = Some n" "param = Some x" "op gb = TR_OP_FUNC_CALL"
            "op (flds n) = TR_IDENTIFIER" "value_str (flds n) \<noteq> None" "wellFormed x"
        by (auto split: option.splits)
      have "nodes x < nodes t"
        using t ab b nx by simp
      from less.hyps[OF this nx(6)] have "dumpNode x = Inr ()" .
      with t ab b nx \<open>op g = TR_STRUCT_REF\<close> show ?thesis
        using dumpNode_name[of a] by (auto simp: TR_OP_BINARY_MASK_def)
    qed
  next
    case False
    note nsr = this
    show ?thesis
    proof (cases "TR_OP_BINARY_MASK (op g)")
      case True
      with less.prems t obtain a b where
        ab: "l0 = Some a" "l1 = Some b" "wellFormed a" "wellFormed b"
        by (cases "op g") (auto simp: TR_OP_BINARY_MASK_def split: option.splits)
      have "dumpNode a = Inr ()" "dumpNode b = Inr ()"
        by (rule less.hyps; simp add: t ab)+
      with True t ab show ?thesis
        by (cases "op g") (auto simp: TR_OP_BINARY_MASK_def)
    next
      case False
      show ?thesis
      proof (cases l0)
        case None
        with False nsr less.prems t show ?thesis
          by (cases "op g") (auto simp: TR_OP_BINARY_MASK_def TR_OP_UNARY_MASK_def)
      next
        case (Some son)
        obtain gs s0 s1 where "son = TREE_NODE gs s0 s1"
          by (cases son)
        with Some False nsr less.prems t show ?thesis
          by (cases "op g") (auto simp: TR_OP_BINARY_MASK_def TR_OP_UNARY_MASK_def)
      qed
    qed
  qed
qed

subsection \<open>The generator on the trees of the grammar\<close>

text \<open>
  On a well-formed tree, and with a host that keeps the calling convention, the generator
  ends without a fault and returns \<^verbatim>\<open>true\<close>; it keeps a pending error pending; and if no
  error is pending when it returns, the program it has appended pushes one value.
\<close>

lemma generateUCode_wellFormed:
  assumes hc: "hostContract E" and mt: "m_tree c = Some t" and wf: "wellFormed t"
  shows "\<exists>c' prog pctx'.
           generateUCode E c aCode pctx = Some (Inr (True, c', aCode @ prog, pctx'))
           \<and> (pendingError (m_errorStatus c) \<longrightarrow> pendingError (m_errorStatus c'))
           \<and> (\<not> pendingError (m_errorStatus c') \<longrightarrow> pushesOne E prog)"
proof -
  let ?T = "prepareTree t"
  have wfT: "wellFormed ?T"
    by (rule prepareTree_wellFormed[OF wf])
  have bu: "belowUnvisited ?T"
    using allUnvisited_below[OF prepareTree_allUnvisited] by blast
  have dn: "dumpNode ?T = Inr ()"
    by (rule dumpNode_wellFormed[OF wfT])
  have "deref [] ?T = Some ?T"
    by simp
  from gen_subtree[OF hc wfT bu this, of "m_sourcePos c" "[]" aCode "m_errorStatus c" pctx]
  obtain t' es' pctx' prog where
    loop: "genLoop E (m_sourcePos c) (genState ?T [[]] aCode (m_errorStatus c) pctx)
           = genLoop E (m_sourcePos c) (genState (assign [] t' ?T) [] (aCode @ prog) es' pctx')"
    and mono: "pendingError (m_errorStatus c) \<longrightarrow> pendingError es'"
    and push: "\<not> pendingError es' \<longrightarrow> pushesOne E prog"
    by blast
  have "generateUCode E c aCode pctx
          = Some (Inr (True, c\<lparr>m_tree := Some t', m_errorStatus := es'\<rparr>, aCode @ prog, pctx'))"
    by (simp add: generateUCode_def mt dn loop genLoop_done Let_def)
  with mono push show ?thesis
    by auto
qed

lemma Run_pushesOne:
  assumes "pushesOne E prog"
  shows "\<exists>v ctx'. runOps E prog (ctx\<lparr>m_stack := []\<rparr>) = Inr ctx' \<and> m_stack ctx' = [v]
                 \<and> Run E prog (ctx\<lparr>m_stack := []\<rparr>) = Inr (v, ctx'\<lparr>m_stack := []\<rparr>)"
proof -
  from assms obtain v ctx' where
    "runOps E prog (ctx\<lparr>m_stack := []\<rparr>) = Inr ctx'" "m_stack ctx' = [v]"
    unfolding pushesOne_def by fastforce
  then show ?thesis
    by (simp add: Run_def SP_def Pop_def)
qed

subsection \<open>The tree that the parser hands over\<close>

lemma lexOperator_tree: "m_tree (snd (snd (lexOperator ch tk c))) = m_tree c"
  by (simp add: lexOperator_def split: option.split)

lemma lexDefault_tree: "m_tree (snd (snd (lexDefault E c))) = m_tree c"
  by (simp add: lexDefault_def Let_def lexOperator_tree split: prod.split)

lemma getToken_tree: "m_tree (snd (getToken E c)) = m_tree c"
proof (induction E c rule: getToken.induct)
  case (1 E c)
  show ?case
  proof (cases "m_lexerState c")
    case LS_DEFAULT
    obtain fin rv c' where l: "lexDefault E c = (fin, rv, c')"
      by (cases "lexDefault E c")
    have p: "m_tree c' = m_tree c"
      using lexDefault_tree[of E c] l by simp
    show ?thesis
    proof (cases fin)
      case True
      with LS_DEFAULT l p show ?thesis by (simp add: getToken.simps[of E c])
    next
      case False
      with "1.IH"(1)[OF LS_DEFAULT l[symmetric] refl] l p LS_DEFAULT
      show ?thesis by (simp add: getToken.simps[of E c])
    qed
  next
    case LS_STRING
    then show ?thesis
      by (simp add: getToken.simps[of E c] lexString_def Let_def)
  qed
qed

lemma fold_parserCall_treeOk:
  "(\<forall>t. CallSetRoot t \<in> set xs \<longrightarrow> wellFormed t) \<Longrightarrow> treeOk c
   \<Longrightarrow> treeOk (fold parserCall xs c)"
proof (induction xs arbitrary: c)
  case Nil
  then show ?case by simp
next
  case (Cons x xs)
  have "treeOk (parserCall x c)"
    using Cons.prems by (cases x) (auto simp: treeOk_def)
  with Cons show ?case by simp
qed

lemma Parse_treeOk:
  assumes "parserWellFormed P" and "treeOk c"
  shows "treeOk (Parse P tk tok c)"
proof -
  obtain p' calls where pc: "P (m_parser c) tk tok (m_sourcePos c) = (p', calls)"
    by (cases "P (m_parser c) tk tok (m_sourcePos c)")
  have "\<forall>t. CallSetRoot t \<in> set calls \<longrightarrow> wellFormed t"
    using assms(1) pc unfolding parserWellFormed_def by (metis snd_conv)
  moreover have "treeOk (c\<lparr>m_parser := p'\<rparr>)"
    using assms(2) by (simp add: treeOk_def)
  ultimately show ?thesis
    by (simp add: Parse_def pc fold_parserCall_treeOk)
qed

lemma tokenLoop_treeOk:
  assumes res: "tokenLoop E P c = Some r" and pw: "parserWellFormed P" and ok: "treeOk c"
  shows "treeOk (snd r)"
proof -
  have "parserWellFormed P \<longrightarrow> treeOk c \<longrightarrow> treeOk (snd r)"
    apply (rule tokenLoop.raw_induct
             [where Pa = "\<lambda>x y. parserWellFormed (snd (fst x)) \<longrightarrow> treeOk (snd x)
                                  \<longrightarrow> treeOk (snd y)"
                and E = E and P = P and c = c and y = r, simplified, OF _ res])
    subgoal premises prems for f E' P' c' r'
    proof (intro impI)
      assume pw': "parserWellFormed P'" and ok': "treeOk c'"
      let ?c0 = "c'\<lparr>m_sourcePos := int (m_pos (m_tokenizer c'))\<rparr>"
      obtain tok c1 where g: "getToken E' ?c0 = (tok, c1)"
        by (cases "getToken E' ?c0")
      have "m_tree c1 = m_tree ?c0"
        using getToken_tree[of E' ?c0] g by simp
      with ok' have ok1: "treeOk c1"
        by (simp add: treeOk_def)
      let ?c2 = "Parse P' (token tok) tok c1"
      have ok2: "treeOk ?c2"
        using pw' ok1 by (simp add: Parse_treeOk)
      have ok3: "treeOk (Parse P' G_NONE tok ?c2)"
        using pw' ok2 by (simp add: Parse_treeOk)
      from prems(2) g prems(1)[of E' P' ?c2 r'] pw' ok2 ok3 show "treeOk (snd r')"
        by (auto simp: Let_def split: if_splits)
    qed
    done
  with pw ok show ?thesis
    by simp
qed

subsection \<open>The stack at the end of a run\<close>

text \<open>
  C2 fails on the code. \<^verbatim>\<open>Compile\<close> returns \<^verbatim>\<open>true\<close> also where the generator has reported
  an error (the defect of C3), and the program it hands over then does not run to one
  value: that of \<open>B.Width\<close> (no item \<open>B\<close>) dereferences the null variable reference, that
  of \<open>A.foo('x')\<close> (no function \<open>foo\<close>) calls the empty function reference, and neither
  reaches the final pop. Compiled with no error at all, the program of the bare identifier
  \<open>A\<close> ends with one entry on the stack, which is the null pointer and not a value (the
  defect of C6); \<^verbatim>\<open>Run\<close> returns it.
\<close>

theorem Run_stack_not_balanced:
  "(case Compile hostEnv (fixedParser (fieldTree ''B'' ''Width'')) ''B.Width''
           (newCompiler ()) [] newContext of
      Some (Inr (ok, c, code, p)) \<Rightarrow>
        ok \<and> code = [UOP_ref TR_UOP_PUSH_VAR None]
        \<and> runOps hostEnv code newContext = Inl NullDeref
        \<and> Run hostEnv code newContext = Inl NullDeref
    | _ \<Rightarrow> False)
   \<and> (case Compile hostEnv (fixedParser (methodCallTree None ''foo'' ''x'')) unknownCallText
           (newCompiler ()) [] newContext of
      Some (Inr (ok, c, code, p)) \<Rightarrow>
        ok \<and> code = [UOP_value TR_UOP_PUSH_VALUE (Text ''x''),
                     UOP_func TR_OP_METHOD_CALL None (Some (''A'', []))]
        \<and> runOps hostEnv code newContext = Inl HostException
        \<and> Run hostEnv code newContext = Inl HostException
    | _ \<Rightarrow> False)
   \<and> (case Compile hostEnv (fixedParser (newNode TR_IDENTIFIER (Some ''A'') 0 1 None None)) ''A''
           (newCompiler ()) [] newContext of
      Some (Inr (ok, c, code, p)) \<Rightarrow>
        ok \<and> \<not> pendingError (m_errorStatus c)
        \<and> code = [UOP_ref TR_UOP_PUSH_VALUE (Some (''A'', []))]
        \<and> runOps hostEnv code newContext = Inr (newContext\<lparr>m_stack := [None]\<rparr>)
        \<and> Run hostEnv code newContext = Inr (None, newContext)
    | _ \<Rightarrow> False)"
  by code_simp

text \<open>
  What does hold. Take a host whose functions keep the calling convention and a parser that
  keeps to the grammar. If \<^verbatim>\<open>Compile\<close> returns \<^verbatim>\<open>true\<close> with a program, and no error is
  pending in the compiler, then running the program on an empty operand stack ends without
  a fault with exactly one entry on the stack, which \<^verbatim>\<open>Run\<close> pops and returns.
\<close>

lemma Run_balance_without_error:
  assumes hc: "hostContract E" and pw: "parserWellFormed P"
    and comp: "Compile E P aString c [] aPreflightContext = Some (Inr (True, c', code, pctx'))"
    and noerr: "\<not> pendingError (m_errorStatus c')"
  shows "\<exists>v ctx'. runOps E code (ctx\<lparr>m_stack := []\<rparr>) = Inr ctx' \<and> m_stack ctx' = [v]
                 \<and> SP ctx' = 1
                 \<and> Run E code (ctx\<lparr>m_stack := []\<rparr>) = Inr (v, ctx'\<lparr>m_stack := []\<rparr>)"
proof -
  let ?c1 = "(newString aString c)\<lparr>m_tree := None, m_parseFinished := False\<rparr>"
  have "\<exists>c2. treeOk c2 \<and> generateUCode E c2 [] aPreflightContext
                             = Some (Inr (True, c', code, pctx'))"
  proof (cases "aString = []")
    case True
    with comp have "generateUCode E (?c1\<lparr>m_parseFinished := True\<rparr>) [] aPreflightContext
                      = Some (Inr (True, c', code, pctx'))"
      by (simp add: Compile_def Let_def)
    moreover have "treeOk (?c1\<lparr>m_parseFinished := True\<rparr>)"
      by (simp add: treeOk_def)
    ultimately show ?thesis
      by blast
  next
    case False
    with comp obtain c2 where
      tl: "tokenLoop E P ?c1 = Some (True, c2)"
      and gen: "generateUCode E c2 [] aPreflightContext = Some (Inr (True, c', code, pctx'))"
      by (auto simp: Compile_def Let_def split: option.splits bool.splits)
    have "treeOk ?c1"
      by (simp add: treeOk_def)
    from tokenLoop_treeOk[OF tl pw this] gen show ?thesis
      by auto
  qed
  then obtain c2 where ok2: "treeOk c2"
    and gen: "generateUCode E c2 [] aPreflightContext = Some (Inr (True, c', code, pctx'))"
    by blast
  have "pushesOne E code"
  proof (cases "m_tree c2")
    case None
    with gen have "code = [UOP_value TR_UOP_PUSH_VALUE (Numeric (d_one (dbl E)))]"
      by (simp add: generateUCode_def)
    then show ?thesis
      by (simp add: pushesOne_value UOP_value_def)
  next
    case (Some t)
    with ok2 have wf: "wellFormed t"
      by (simp add: treeOk_def)
    from generateUCode_wellFormed[OF hc Some wf, of "[]" aPreflightContext] gen noerr
    show ?thesis
      by auto
  qed
  from Run_pushesOne[OF this, of ctx] show ?thesis
    by (auto simp: SP_def)
qed

lemma hostContract_hostEnv: "hostContract hostEnv"
  by (auto simp: hostContract_def hostEnv_def hostCall_def ReportError_def)

lemma Run_balance_without_error_example:
  "hostContract hostEnv \<and> parserWellFormed (fixedParser balanceTree)
   \<and> (case Compile hostEnv (fixedParser balanceTree) balanceText (newCompiler ()) []
              newContext of
        Some (Inr (ok, c', code, p')) \<Rightarrow>
          ok \<and> \<not> pendingError (m_errorStatus c') \<and> length code = 4
          \<and> (\<exists>ctx'. runOps hostEnv code newContext = Inr ctx'
                     \<and> m_stack ctx' = [Some (Numeric 1)]
                     \<and> Run hostEnv code newContext
                         = Inr (Some (Numeric 1), ctx'\<lparr>m_stack := []\<rparr>))
      | _ \<Rightarrow> False)"
proof -
  let ?P = "fixedParser balanceTree :: (unit, real, string \<times> string, string) parser"
  have wf: "wellFormed balanceTree"
    by code_simp
  have pw: "parserWellFormed ?P"
    using wf by (auto simp: parserWellFormed_def fixedParser_def)
  have ev: "(case Compile hostEnv ?P balanceText (newCompiler ()) [] newContext of
               Some (Inr (ok, c', code, p')) \<Rightarrow>
                 ok \<and> \<not> pendingError (m_errorStatus c') \<and> length code = 4
                 \<and> map_sum id fst (Run hostEnv code newContext) = Inr (Some (Numeric 1))
             | _ \<Rightarrow> False)"
    by code_simp
  then obtain c' code p' where
    comp: "Compile hostEnv ?P balanceText (newCompiler ()) [] newContext
             = Some (Inr (True, c', code, p'))"
    and noerr: "\<not> pendingError (m_errorStatus c')"
    and len: "length code = 4"
    and res: "map_sum id fst (Run hostEnv code newContext) = Inr (Some (Numeric 1))"
    by (auto split: option.splits sum.splits)
  have nc: "newContext\<lparr>m_stack := []\<rparr> = (newContext :: real CONTEXT)"
    by (simp add: newContext_def)
  from Run_balance_without_error[OF hostContract_hostEnv pw comp noerr, of newContext]
  obtain v ctx' where
    run: "runOps hostEnv code newContext = Inr ctx'" "m_stack ctx' = [v]"
    "Run hostEnv code newContext = Inr (v, ctx'\<lparr>m_stack := []\<rparr>)"
    unfolding nc by blast
  from run(3) res have "v = Some (Numeric 1)"
    by simp
  with run have "\<exists>ctx'. runOps hostEnv code newContext = Inr ctx'
                     \<and> m_stack ctx' = [Some (Numeric 1)]
                     \<and> Run hostEnv code newContext
                         = Inr (Some (Numeric 1), ctx'\<lparr>m_stack := []\<rparr>)"
    by blast
  with hostContract_hostEnv pw noerr len show ?thesis
    by (simp only: comp option.case sum.case prod.case simp_thms)
qed

end
